theory Spec2Isabelle
  imports Complex_Main
begin

section \<open>ORSopt: optimized step size random search\<close>

text \<open>
  A shallow embedding of \<^verbatim>\<open>orsopt\<close> (\<^verbatim>\<open>optimization/ORSopt.py\<close>).

  Python floats are idealised as \<^typ>\<open>real\<close>: the model describes the runs whose floats
  are all finite, with exact arithmetic. The places where the source meets a non-finite
  float are kept: a cell of the history table is a \<^typ>\<open>real option\<close> (\<open>None\<close> is the
  \<^verbatim>\<open>nan\<close> the table is filled with), and a division of the normalisation returns a
  \<^typ>\<open>real option\<close> (\<open>None\<close> is a quotient that is not a finite float).
  One-dimensional arrays are lists; an operation on two arrays follows numpy's
  broadcasting and raises \<^verbatim>\<open>ValueError\<close> on shapes that do not fit.
  The messages printed under \<^verbatim>\<open>msglev\<close> are left out, except for the exception the
  final summary can raise; timing is left out.
\<close>

subsection \<open>Errors\<close>

text \<open>
  The exceptions that can leave \<^verbatim>\<open>orsopt\<close>. In a run, an exception is returned together
  with the list of points that had been handed to the Evaluator when it was raised.
\<close>

datatype error = ValueError | LinAlgError | IndexError | UnboundLocalError | ZeroDivisionError

subsection \<open>Arrays\<close>

type_synonym vec = "real list"

text \<open>
  Broadcasting of two one-dimensional arrays: equal lengths pair up, an array of length
  one is repeated along the other, anything else is a \<^verbatim>\<open>ValueError\<close>.
\<close>

definition broadcast :: "'a list \<Rightarrow> 'b list \<Rightarrow> error + ('a \<times> 'b) list" where
  "broadcast x y =
     (if length x = length y then Inr (zip x y)
      else if length x = 1 then Inr (map (\<lambda>b. (hd x, b)) y)
      else if length y = 1 then Inr (map (\<lambda>a. (a, hd y)) x)
      else Inl ValueError)"

definition np2 :: "(real \<Rightarrow> real \<Rightarrow> 'c) \<Rightarrow> vec \<Rightarrow> vec \<Rightarrow> error + 'c list" where
  "np2 f x y = (case broadcast x y of Inl e \<Rightarrow> Inl e | Inr ps \<Rightarrow> Inr (map (\<lambda>(a, b). f a b) ps))"

definition np_add :: "vec \<Rightarrow> vec \<Rightarrow> error + vec" where
  "np_add = np2 (+)"

definition np_sub :: "vec \<Rightarrow> vec \<Rightarrow> error + vec" where
  "np_sub = np2 (-)"

definition np_mul :: "vec \<Rightarrow> vec \<Rightarrow> error + vec" where
  "np_mul = np2 (*)"

text \<open>A scalar times an array.\<close>

definition smul :: "real \<Rightarrow> vec \<Rightarrow> vec" where
  "smul a x = map (\<lambda>v. a * v) x"

text \<open>\<^verbatim>\<open>np.clip(x, -1.0, 1.0)\<close>\<close>

definition clip :: "vec \<Rightarrow> vec" where
  "clip x = map (\<lambda>v. min 1 (max (- 1) v)) x"

text \<open>\<^verbatim>\<open>np.linalg.norm\<close> of a vector\<close>

definition norm2 :: "vec \<Rightarrow> real" where
  "norm2 x = sqrt (sum_list (map (\<lambda>v. v * v) x))"

definition in_box :: "vec \<Rightarrow> bool" where
  "in_box x = list_all (\<lambda>v. - 1 \<le> v \<and> v \<le> 1) x"

type_synonym 'a raising = "(error \<times> vec list) + 'a"

text \<open>\<^verbatim>\<open>np.max\<close> of a vector: \<^verbatim>\<open>ValueError\<close> on an empty one.\<close>

definition np_max :: "vec \<Rightarrow> error + real" where
  "np_max g = (case g of [] \<Rightarrow> Inl ValueError | v # vs \<Rightarrow> Inr (fold max vs v))"

text \<open>\<^verbatim>\<open>np.argmin\<close>: the first index of the smallest entry.\<close>

primrec argmin_from :: "real \<Rightarrow> nat \<Rightarrow> nat \<Rightarrow> real list \<Rightarrow> nat" where
  "argmin_from m i j [] = i"
| "argmin_from m i j (v # vs) =
     (if v < m then argmin_from v j (Suc j) vs else argmin_from m i (Suc j) vs)"

definition argmin :: "real list \<Rightarrow> nat" where
  "argmin vs = (case vs of [] \<Rightarrow> 0 | v # ws \<Rightarrow> argmin_from v 0 1 ws)"

subsection \<open>Bounds and normalisation (lines 49 to 66)\<close>

text \<open>
  \<^verbatim>\<open>if x_lb is None or x_ub is None\<close>: both bounds are replaced.
\<close>

definition default_bounds :: "vec \<Rightarrow> vec option \<Rightarrow> vec option \<Rightarrow> vec \<times> vec" where
  "default_bounds x_init x_lb x_ub =
     (case (x_lb, x_ub) of
        (Some lb, Some ub) \<Rightarrow> (lb, ub)
      | _ \<Rightarrow> (map (\<lambda>v. - 100 * \<bar>v\<bar>) x_init, map (\<lambda>v. 100 * \<bar>v\<bar>) x_init))"

text \<open>
  A float division of numpy does not raise: with a zero divisor the quotient is an
  infinity or \<^verbatim>\<open>nan\<close> (which of them depends on the dividend and on the sign of the
  zero), and a warning is printed. \<open>None\<close> stands for such a quotient.
\<close>

definition np_div :: "real \<Rightarrow> real \<Rightarrow> real option" where
  "np_div a b = (if b = 0 then None else Some (a / b))"

text \<open>
  The scaling constants, lines 65 and 66:
  \<^verbatim>\<open>s0 = (x_lb + x_ub) / (x_lb - x_ub)\<close> and \<^verbatim>\<open>s1 = 2.0 / (x_ub - x_lb)\<close>.
  Nothing on these lines, and nothing before them, compares the bounds.
\<close>

definition scaling :: "vec \<Rightarrow> vec \<Rightarrow> error + real option list \<times> real option list" where
  "scaling x_lb x_ub =
     (case np_add x_lb x_ub of
        Inl e \<Rightarrow> Inl e
      | Inr su \<Rightarrow>
          (case np_sub x_lb x_ub of
             Inl e \<Rightarrow> Inl e
           | Inr dl \<Rightarrow>
               (case np2 np_div su dl of
                  Inl e \<Rightarrow> Inl e
                | Inr c0 \<Rightarrow>
                    (case np_sub x_ub x_lb of
                       Inl e \<Rightarrow> Inl e
                     | Inr du \<Rightarrow> Inr (c0, map (np_div 2) du)))))"

text \<open>The finite floats of an array, if all of them are finite.\<close>

primrec finite_vec :: "real option list \<Rightarrow> vec option" where
  "finite_vec [] = Some []"
| "finite_vec (c # cs) =
     (case c of
        Some v \<Rightarrow> (case finite_vec cs of Some vs \<Rightarrow> Some (v # vs) | None \<Rightarrow> None)
      | None \<Rightarrow> None)"

text \<open>
  The lower and the upper bound of variable \<open>i\<close> are equal: \<^verbatim>\<open>x_lb == x_ub\<close> holds at
  component \<open>i\<close> of the two arrays, paired as numpy pairs them.
\<close>

definition bounds_meet :: "vec \<Rightarrow> vec \<Rightarrow> nat \<Rightarrow> bool" where
  "bounds_meet x_lb x_ub i =
     (case broadcast x_lb x_ub of
        Inl e \<Rightarrow> False
      | Inr ps \<Rightarrow> i < length ps \<and> fst (ps ! i) = snd (ps ! i))"

subsection \<open>Collaborators, options and state\<close>

text \<open>
  The Evaluator \<^verbatim>\<open>avg_cov_func\<close>, the Step Projector \<^verbatim>\<open>box_constraint\<close> and the
  options resolver \<^verbatim>\<open>optim_options\<close> are not part of the sources: they are parameters.
  An evaluation returns the objective, the constraints, the point actually evaluated
  and the number of function evaluations it used. Its fourth result, \<^verbatim>\<open>cJ\<close>, is never
  read; of the names \<^verbatim>\<open>c2, c3, c4\<close> it is bound to, only \<^verbatim>\<open>c4\<close> can be unbound when
  line 156 reads it.
\<close>

datatype objective = Scalar real | Array "real list"

record evaluation =
  ev_f :: objective
  ev_g :: vec
  ev_x :: vec
  ev_n :: int

record options =
  msglev :: int
  tol_x :: real
  tol_f :: real
  tol_g :: real
  max_evals :: int
  find_feas :: bool

record params =
  evaluator :: "vec \<Rightarrow> evaluation"
  box_constraint :: "vec \<Rightarrow> vec \<Rightarrow> real"
  opts :: options
  lower :: vec
  upper :: vec
  s0 :: vec
  s1 :: vec
  nvars :: nat

text \<open>
  The local variables of \<^verbatim>\<open>orsopt\<close> that live across statements. \<open>g1\<close> is \<open>None\<close>
  while the name is unbound, \<open>c4\<close> tells whether the name \<^verbatim>\<open>c4\<close> is bound. \<open>handed\<close>
  is the trace of the points passed to the Evaluator, in call order.
\<close>

record state =
  x1 :: vec
  g1 :: "vec option"
  x2 :: vec
  g2 :: vec
  x3 :: vec
  g3 :: vec
  x4 :: vec
  g4 :: vec
  c4 :: bool
  fa :: "real list"
  quad_update :: bool
  i_min :: nat
  sigma :: real
  function_count :: int
  iteration :: nat
  cvg_hst :: "real option list list"
  x_opt :: vec
  f_opt :: real
  g_opt :: vec
  cvg_x :: real
  cvg_f :: real
  handed :: "vec list"

subsection \<open>Calling the Evaluator\<close>

text \<open>
  \<^verbatim>\<open>f, g, x, c, nAvg = avg_cov_func(func, x, s0, s1, options, consts, BX)\<close> followed by
  \<^verbatim>\<open>function_count += nAvg\<close>.
\<close>

definition call_ev :: "params \<Rightarrow> vec \<Rightarrow> state \<Rightarrow> evaluation \<times> state" where
  "call_ev p x st =
     (let e = evaluator p x
      in (e, st\<lparr>function_count := function_count st + ev_n e,
                handed := handed st @ [x]\<rparr>))"

text \<open>
  \<^verbatim>\<open>fa[k] = f\<close>: storing an objective value in a cell of \<^verbatim>\<open>fa\<close>. A float is stored as
  it is, an array of one element is converted, any other array is refused by numpy.
\<close>

definition as_cell :: "objective \<Rightarrow> error + real" where
  "as_cell f = (case f of Scalar v \<Rightarrow> Inr v | Array [v] \<Rightarrow> Inr v | Array _ \<Rightarrow> Inl ValueError)"

subsection \<open>The local quadratic (lines 127 to 135)\<close>

definition det3 ::
  "real \<Rightarrow> real \<Rightarrow> real \<Rightarrow> real \<Rightarrow> real \<Rightarrow> real \<Rightarrow> real \<Rightarrow> real \<Rightarrow> real \<Rightarrow> real" where
  "det3 a11 a12 a13 a21 a22 a23 a31 a32 a33 =
     a11 * (a22 * a33 - a23 * a32) - a12 * (a21 * a33 - a23 * a31)
       + a13 * (a21 * a32 - a22 * a31)"

text \<open>
  \<^verbatim>\<open>a, b, c = np.linalg.solve(A, fa[:3])\<close> for the regularised matrix \<open>A\<close> of the
  source, by Cramer's rule; \<^verbatim>\<open>LinAlgError\<close> when \<open>A\<close> is singular.
\<close>

definition quad_fit :: "real \<Rightarrow> real \<Rightarrow> real list \<Rightarrow> error + real \<times> real \<times> real" where
  "quad_fit dx2 dx3 rhs =
     (let i3 = 1 / 10 ^ 9;
          a11 = 0 + i3;           a12 = 0;          a13 = 1;
          a21 = 0.5 * dx2 ^ 2;    a22 = dx2 + i3;   a23 = 1;
          a31 = 0.5 * dx3 ^ 2;    a32 = dx3;        a33 = 1 + i3;
          y1 = rhs ! 0; y2 = rhs ! 1; y3 = rhs ! 2;
          D = det3 a11 a12 a13 a21 a22 a23 a31 a32 a33
      in if D = 0 then Inl LinAlgError
         else Inr (det3 y1 a12 a13 y2 a22 a23 y3 a32 a33 / D,
                   det3 a11 y1 a13 a21 y2 a23 a31 y3 a33 / D,
                   det3 a11 a12 y1 a21 a22 y2 a31 a32 y3 / D))"

subsection \<open>One iteration of the main loop (lines 109 to 198)\<close>

text \<open>
  \<^verbatim>\<open>np.random.randn(n)\<close>: the draw of an iteration is given to the model as a function
  from the index of a component to its value, so that it has \<open>n\<close> components whatever
  \<open>n\<close> is.
\<close>

type_synonym draw = "nat \<Rightarrow> real"

definition randn :: "nat \<Rightarrow> draw \<Rightarrow> vec" where
  "randn n z = map z [0..<n]"

text \<open>
  The three probe points: \<^verbatim>\<open>x1 + a2 * r\<close>, \<^verbatim>\<open>x1 + a3 * step * r\<close> and
  \<^verbatim>\<open>x1 + a4 * d * r\<close>, each multiplier from the Step Projector; \<open>r\<close> is the scaled
  random direction.
\<close>

definition forward_point :: "params \<Rightarrow> vec \<Rightarrow> state \<Rightarrow> error + vec" where
  "forward_point p r st =
     (let a2 = box_constraint p (x1 st) r
      in np_add (x1 st) (smul a2 r))"

definition second_point :: "params \<Rightarrow> vec \<Rightarrow> state \<Rightarrow> error + vec" where
  "second_point p r st =
     (let step = (if fa st ! 1 < fa st ! 0 then 2 else - 1);
          a3 = box_constraint p (x1 st) (smul step r)
      in np_add (x1 st) (smul (a3 * step) r))"

definition quad_point :: "params \<Rightarrow> vec \<Rightarrow> state \<Rightarrow> real \<Rightarrow> real \<Rightarrow> error + vec" where
  "quad_point p r st a b =
     (let d = - b / a;
          a4 = box_constraint p (x1 st) (smul d r)
      in np_add (x1 st) (smul (a4 * d) r))"

text \<open>
  Evaluating a probe point: an exception raised while the point is computed leaves
  the trace as it is.
\<close>

definition evaluate_at :: "params \<Rightarrow> error + vec \<Rightarrow> state \<Rightarrow> (evaluation \<times> state) raising" where
  "evaluate_at p pt st =
     (case pt of Inl err \<Rightarrow> Inl (err, handed st) | Inr y \<Rightarrow> Inr (call_ev p y st))"

text \<open>The +1 step (lines 112 to 117).\<close>

definition forward_probe :: "params \<Rightarrow> vec \<Rightarrow> state \<Rightarrow> state raising" where
  "forward_probe p r st =
     (case evaluate_at p (forward_point p r st) st of
        Inl eh \<Rightarrow> Inl eh
      | Inr (e, st') \<Rightarrow>
          (let st'' = st'\<lparr>x2 := ev_x e, g2 := ev_g e\<rparr>
           in case as_cell (ev_f e) of
                Inl err \<Rightarrow> Inl (err, handed st'')
              | Inr f \<Rightarrow> Inr (st''\<lparr>fa := (fa st'')[1 := f]\<rparr>)))"

text \<open>The second probe, at +2 or -1 (lines 119 to 125).\<close>

definition secondary_probe :: "params \<Rightarrow> vec \<Rightarrow> state \<Rightarrow> state raising" where
  "secondary_probe p r st =
     (case evaluate_at p (second_point p r st) st of
        Inl eh \<Rightarrow> Inl eh
      | Inr (e, st') \<Rightarrow>
          (let st'' = st'\<lparr>x3 := ev_x e, g3 := ev_g e\<rparr>
           in case as_cell (ev_f e) of
                Inl err \<Rightarrow> Inl (err, handed st'')
              | Inr f \<Rightarrow> Inr (st''\<lparr>fa := (fa st'')[2 := f]\<rparr>)))"

text \<open>
  The quadratic fit and the fourth candidate (lines 127 to 145): \<open>local_fit\<close> is the
  solution \<open>(a, b, c)\<close> of the fit through the three costs \<^verbatim>\<open>fa[:3]\<close>.
\<close>

definition local_fit :: "vec \<Rightarrow> state \<Rightarrow> error + real \<times> real \<times> real" where
  "local_fit r st =
     (case np_sub (x2 st) (x1 st) of
        Inl e \<Rightarrow> Inl e
      | Inr d2 \<Rightarrow>
          (case np_sub (x3 st) (x1 st) of
             Inl e \<Rightarrow> Inl e
           | Inr d3 \<Rightarrow>
               quad_fit (norm2 d2 / (norm2 r + 1 / 10 ^ 16)) (norm2 d3 / (norm2 r + 1 / 10 ^ 16))
                 (take 3 (fa st))))"

definition quadratic_probe :: "params \<Rightarrow> vec \<Rightarrow> state \<Rightarrow> state raising" where
  "quadratic_probe p r st =
     (case local_fit r st of
        Inl err \<Rightarrow> Inl (err, handed st)
      | Inr (a, b, c) \<Rightarrow>
          if 0 < a then
            (case evaluate_at p (quad_point p r st a b) (st\<lparr>quad_update := False\<rparr>) of
               Inl eh \<Rightarrow> Inl eh
             | Inr (e, st') \<Rightarrow>
                 (let st'' = st'\<lparr>x4 := ev_x e, g4 := ev_g e, c4 := True\<rparr>
                  in case as_cell (ev_f e) of
                       Inl err \<Rightarrow> Inl (err, handed st'')
                     | Inr f \<Rightarrow> Inr (st''\<lparr>fa := (fa st'')[3 := f], quad_update := True\<rparr>)))
          else Inr (st\<lparr>quad_update := False\<rparr>))"

text \<open>
  Choosing the best of the four, shrinking the scope and clipping (lines 147 to 161).
  The exponent \<^verbatim>\<open>nu\<close> of the schedule is the constant 1.
\<close>

definition nu :: nat where
  "nu = 1"

definition choose_best :: "params \<Rightarrow> state \<Rightarrow> state raising" where
  "choose_best p st =
     (let i = argmin (fa st)
      in if 3 \<le> i \<and> \<not> c4 st then Inl (UnboundLocalError, handed st)
         else
           (let (y, g) = (if i = 0 then (x1 st, g1 st)
                          else if i = 1 then (x2 st, Some (g2 st))
                          else if i = 2 then (x3 st, Some (g3 st))
                          else (x4 st, Some (g4 st)));
                st' = st\<lparr>i_min := i, x1 := y, g1 := g\<rparr>
            in if 0 < i then
                 (if max_evals (opts p) = 0 then Inl (ZeroDivisionError, handed st')
                  else Inr (st'\<lparr>sigma := sigma st
                              * (1 - real_of_int (function_count st) / real_of_int (max_evals (opts p))) ^ nu,
                            x1 := clip y\<rparr>))
               else Inr (st'\<lparr>x1 := clip y\<rparr>)))"

text \<open>A column of the history table; \<^verbatim>\<open>np.isfinite\<close> of a cell.\<close>

definition column :: "vec \<Rightarrow> real \<Rightarrow> real \<Rightarrow> int \<Rightarrow> real \<Rightarrow> real \<Rightarrow> real option list" where
  "column xx f mg fc cx cf = map Some (xx @ [f, mg, real_of_int fc, cx, cf])"

definition isfinite :: "real option \<Rightarrow> bool" where
  "isfinite c = (c \<noteq> None)"

definition cell :: "real option \<Rightarrow> real" where
  "cell c = (case c of Some v \<Rightarrow> v | None \<Rightarrow> 0)"

text \<open>
  \<^verbatim>\<open>cvg_hst[:, j] = col\<close>: \<^verbatim>\<open>IndexError\<close> for a column the table does not have,
  \<^verbatim>\<open>ValueError\<close> for a column of the wrong height.
\<close>

definition write_column ::
  "real option list list \<Rightarrow> nat \<Rightarrow> real option list \<Rightarrow> error + real option list list" where
  "write_column h j col =
     (if length h \<le> j then Inl IndexError
      else if length col \<noteq> length (h ! j) then Inl ValueError
      else Inr (h[j := col]))"

text \<open>
  Back to original units: \<^verbatim>\<open>(x - s0) / s1\<close>. No component of \<open>s1\<close> is zero when the
  constants are those of \<open>scaling\<close>.
\<close>

definition unscale :: "params \<Rightarrow> vec \<Rightarrow> error + vec" where
  "unscale p x = (case np_sub x (s0 p) of Inl e \<Rightarrow> Inl e | Inr d \<Rightarrow> np2 (/) d (s1 p))"

text \<open>
  The convergence ratios (lines 170 to 175). \<open>prev\<close> and \<open>prev_f\<close> are read from the
  last recorded column, \<open>xx\<close> and \<open>f\<close> are the new incumbent.
\<close>

definition ratio_x :: "nat \<Rightarrow> real option list \<Rightarrow> vec \<Rightarrow> error + real" where
  "ratio_x it prev xx =
     (if 1 \<le> it \<and> list_all isfinite prev
      then (case np_sub (map cell prev) xx of
              Inl e \<Rightarrow> Inl e
            | Inr dv \<Rightarrow> Inr (norm2 dv / (norm2 xx + 1 / 10 ^ 16)))
      else Inr 1)"

definition ratio_f :: "nat \<Rightarrow> real option \<Rightarrow> real \<Rightarrow> real" where
  "ratio_f it prev_f f =
     (if 1 \<le> it \<and> isfinite prev_f
      then \<bar>cell prev_f - f\<bar> / (\<bar>f\<bar> + 1 / 10 ^ 16)
      else 1)"

text \<open>
  Updating the incumbent and recording the iteration (lines 163 to 180). The counter
  \<open>iteration\<close> starts at 1 and only grows, so \<open>iteration - 1\<close> is never negative.
\<close>

definition update_incumbent :: "params \<Rightarrow> state \<Rightarrow> state raising" where
  "update_incumbent p st =
     (if fa st ! i_min st < f_opt st then
        (case g1 st of
           None \<Rightarrow> Inl (UnboundLocalError, handed st)
         | Some g \<Rightarrow>
             (let xo = x1 st; fo = fa st ! i_min st; j = iteration st - 1
              in if length (cvg_hst st) \<le> j then Inl (IndexError, handed st)
                 else
                   (let prev = take (nvars p) (cvg_hst st ! j);
                        prev_f = cvg_hst st ! j ! nvars p
                    in case unscale p xo of
                         Inl err \<Rightarrow> Inl (err, handed st)
                       | Inr xx \<Rightarrow>
                           (case ratio_x (iteration st) prev xx of
                              Inl err \<Rightarrow> Inl (err, handed st)
                            | Inr cx \<Rightarrow>
                                (let cf = ratio_f (iteration st) prev_f fo
                                 in case np_max g of
                                      Inl err \<Rightarrow> Inl (err, handed st)
                                    | Inr mg \<Rightarrow>
                                        (case write_column (cvg_hst st) (iteration st)
                                                (column xx fo mg (function_count st) cx cf) of
                                           Inl err \<Rightarrow> Inl (err, handed st)
                                         | Inr h \<Rightarrow>
                                             Inr (st\<lparr>x_opt := xo, f_opt := fo, g_opt := g,
                                                     cvg_x := cx, cvg_f := cf,
                                                     iteration := iteration st + 1,
                                                     cvg_hst := h\<rparr>)))))))
      else Inr st)"

definition then_do :: "'a raising \<Rightarrow> ('a \<Rightarrow> 'b raising) \<Rightarrow> 'b raising" where
  "then_do m f = (case m of Inl e \<Rightarrow> Inl e | Inr v \<Rightarrow> f v)"

text \<open>The loop body; \<open>z\<close> is the draw \<^verbatim>\<open>np.random.randn(n)\<close> of the iteration.\<close>

definition body :: "params \<Rightarrow> draw \<Rightarrow> state \<Rightarrow> state raising" where
  "body p z st =
     (let r = smul (sigma st) (randn (nvars p) z)
      in then_do (then_do (then_do (then_do (forward_probe p r st)
           (secondary_probe p r)) (quadratic_probe p r)) (choose_best p)) (update_incumbent p))"

subsection \<open>Termination checks and the main loop (lines 108 and 200 to 210)\<close>

datatype stop = Feasible | Converged | Exhausted

definition termination_check :: "params \<Rightarrow> state \<Rightarrow> stop option raising" where
  "termination_check p st =
     (case np_max (g_opt st) of
        Inl err \<Rightarrow> Inl (err, handed st)
      | Inr mg \<Rightarrow>
          Inr (if mg < tol_g (opts p) \<and> find_feas (opts p) then Some Feasible
               else if 1 < iteration st \<and> (cvg_x st < tol_x (opts p) \<or> cvg_f st < tol_f (opts p))
               then Some Converged
               else None))"

text \<open>
  A run of the loop ends in one of three ways: the loop is left (\<open>Stopped\<close>, with the
  exit taken and the final state), an exception is raised, or the list of random draws
  given to the model is used up before the loop is left (\<open>NoDraws\<close>, which no run of
  the code corresponds to: the code draws as often as it iterates). Each carries the
  points handed to the Evaluator.
\<close>

datatype result = Stopped stop state | Raised error "vec list" | NoDraws "vec list"

definition trace :: "result \<Rightarrow> vec list" where
  "trace res = (case res of Stopped why st \<Rightarrow> handed st | Raised e h \<Rightarrow> h | NoDraws h \<Rightarrow> h)"

text \<open>
  \<^verbatim>\<open>while function_count < max_evals\<close>, one draw of the random direction per iteration.
\<close>

fun loop :: "params \<Rightarrow> draw list \<Rightarrow> state \<Rightarrow> result" where
  "loop p [] st =
     (if function_count st < max_evals (opts p) then NoDraws (handed st) else Stopped Exhausted st)"
| "loop p (z # zs) st =
     (if function_count st < max_evals (opts p) then
        (case body p z st of
           Inl (err, h) \<Rightarrow> Raised err h
         | Inr st' \<Rightarrow>
             (case termination_check p st' of
                Inl (err, h) \<Rightarrow> Raised err h
              | Inr (Some why) \<Rightarrow> Stopped why st'
              | Inr None \<Rightarrow> loop p zs st'))
      else Stopped Exhausted st)"

subsection \<open>Initialisation (lines 67 to 105)\<close>

text \<open>The normalised and clipped initial guess (lines 67 and 68).\<close>

definition seed_point :: "params \<Rightarrow> vec \<Rightarrow> error + vec" where
  "seed_point p x_init =
     (case np_mul (s1 p) x_init of
        Inl e \<Rightarrow> Inl e
      | Inr m \<Rightarrow> (case np_add (s0 p) m of Inl e \<Rightarrow> Inl e | Inr y \<Rightarrow> Inr (clip y)))"

definition initialise :: "params \<Rightarrow> vec \<Rightarrow> state raising" where
  "initialise p x_init =
     (case seed_point p x_init of
        Inl err \<Rightarrow> Inl (err, [])
      | Inr y \<Rightarrow>
          (let hst = replicate (nat (max 1 (max_evals (opts p)))) (replicate (nvars p + 5) None);
               e = evaluator p y;
               fc = 0 + ev_n e
           in case ev_f e of
                Array _ \<Rightarrow> Inl (ValueError, [y])
              | Scalar fv \<Rightarrow>
                  (case unscale p (ev_x e) of
                     Inl err \<Rightarrow> Inl (err, [y])
                   | Inr xx \<Rightarrow>
                       (case np_max (ev_g e) of
                          Inl err \<Rightarrow> Inl (err, [y])
                        | Inr mg \<Rightarrow>
                            (case write_column hst 0 (column xx fv mg fc 1 1) of
                               Inl err \<Rightarrow> Inl (err, [y])
                             | Inr h \<Rightarrow>
                                 Inr \<lparr>x1 = ev_x e, g1 = None,
                                      x2 = ev_x e, g2 = ev_g e,
                                      x3 = ev_x e, g3 = ev_g e,
                                      x4 = ev_x e, g4 = ev_g e, c4 = False,
                                      fa = [fv, 0, 0, fv],
                                      quad_update = False, i_min = 0,
                                      sigma = 0.2,
                                      function_count = fc,
                                      iteration = 1,
                                      cvg_hst = h,
                                      x_opt = ev_x e, f_opt = fv, g_opt = ev_g e,
                                      cvg_x = 1, cvg_f = 1,
                                      handed = [y]\<rparr>)))))"

subsection \<open>The optimizer\<close>

text \<open>
  The parameters of a run: the bounds (lines 49 to 53) and the scaling constants
  (lines 65 and 66). The result is an exception, or \<open>Some\<close> parameters when all scaling
  constants are finite floats, or \<open>None\<close> when one of them is not: the code then
  goes on computing with infinities and \<^verbatim>\<open>nan\<close>, which this real-valued model does not
  describe.
\<close>

definition make_params ::
  "(vec \<Rightarrow> vec \<Rightarrow> vec \<Rightarrow> evaluation) \<Rightarrow> (vec \<Rightarrow> vec \<Rightarrow> real) \<Rightarrow> vec \<Rightarrow> vec option \<Rightarrow> vec option
     \<Rightarrow> options \<Rightarrow> error + params option" where
  "make_params avg_cov_func proj x_init x_lb x_ub options_in =
     (let (lb, ub) = default_bounds x_init x_lb x_ub
      in case scaling lb ub of
           Inl e \<Rightarrow> Inl e
         | Inr (k0, k1) \<Rightarrow>
             Inr (case (finite_vec k0, finite_vec k1) of
                    (Some c0, Some c1) \<Rightarrow>
                      Some \<lparr>evaluator = avg_cov_func c0 c1, box_constraint = proj,
                            opts = options_in, lower = lb, upper = ub,
                            s0 = c0, s1 = c1, nvars = length x_init\<rparr>
                  | _ \<Rightarrow> None))"

text \<open>Lines 67 to 210: the seed evaluation and the loop.\<close>

definition run :: "params \<Rightarrow> vec \<Rightarrow> draw list \<Rightarrow> result" where
  "run p x_init draws =
     (case initialise p x_init of
        Inl (err, h) \<Rightarrow> Raised err h
      | Inr st \<Rightarrow> loop p draws st)"

text \<open>Finalising the history (lines 239 to 242).\<close>

record returned_tuple =
  x_opt_out :: vec
  f_opt_out :: real
  g_opt_out :: vec
  out_hist :: "real option list list"

definition finalise_history :: "nat \<Rightarrow> real option list list \<Rightarrow> real option list list" where
  "finalise_history it hst =
     (let k = max 1 it;
          h = take k hst;
          c = last h
      in if \<not> isfinite (last c)
         then h[length h - 1 := c[length c - 1 := last (h ! max 0 (k - 2))]]
         else h)"

text \<open>
  Lines 217 to 244. \<^verbatim>\<open>x_init_out\<close> is only printed. The summary printed when
  \<^verbatim>\<open>msglev\<close> is not zero indexes \<^verbatim>\<open>x_init_out\<close>, \<^verbatim>\<open>x_lb\<close>, \<^verbatim>\<open>x_opt_out\<close> and
  \<^verbatim>\<open>x_ub\<close> at \<open>0, \<dots>, n - 1\<close>: \<^verbatim>\<open>IndexError\<close> when one of them is shorter than \<open>n\<close>.
\<close>

definition x_init_out :: "params \<Rightarrow> vec \<Rightarrow> error + vec" where
  "x_init_out p x_init =
     (case np_mul (s1 p) x_init of
        Inl e \<Rightarrow> Inl e
      | Inr m \<Rightarrow> (case np_add (s0 p) m of Inl e \<Rightarrow> Inl e | Inr y \<Rightarrow> unscale p y))"

definition returned :: "params \<Rightarrow> vec \<Rightarrow> state \<Rightarrow> error + returned_tuple" where
  "returned p x_init st =
     (case x_init_out p x_init of
        Inl e \<Rightarrow> Inl e
      | Inr xi \<Rightarrow>
          (case unscale p (x_opt st) of
             Inl e \<Rightarrow> Inl e
           | Inr xo \<Rightarrow>
               if msglev (opts p) \<noteq> 0
                  \<and> (length xi < nvars p \<or> length (lower p) < nvars p
                       \<or> length xo < nvars p \<or> length (upper p) < nvars p)
               then Inl IndexError
               else Inr \<lparr>x_opt_out = xo, f_opt_out = f_opt st, g_opt_out = g_opt st,
                         out_hist = finalise_history (iteration st) (cvg_hst st)\<rparr>))"

text \<open>
  The optimizer: \<open>Some\<close> of the tuple it returns. \<open>None\<close> when no tuple is determined:
  an exception is raised, the scaling constants are not finite (see \<open>make_params\<close>), or
  the draws given to the model are used up.
\<close>

definition orsopt ::
  "(vec \<Rightarrow> vec \<Rightarrow> vec \<Rightarrow> evaluation) \<Rightarrow> (vec \<Rightarrow> vec \<Rightarrow> real) \<Rightarrow> vec \<Rightarrow> vec option \<Rightarrow> vec option
     \<Rightarrow> options \<Rightarrow> draw list \<Rightarrow> returned_tuple option" where
  "orsopt avg_cov_func proj x_init x_lb x_ub options_in draws =
     (case make_params avg_cov_func proj x_init x_lb x_ub options_in of
        Inr (Some p) \<Rightarrow>
          (case run p x_init draws of
             Stopped why st \<Rightarrow>
               (case returned p x_init st of Inr out \<Rightarrow> Some out | Inl e \<Rightarrow> None)
           | _ \<Rightarrow> None)
      | _ \<Rightarrow> None)"

subsection \<open>Reachable states\<close>

text \<open>
  \<open>reaches p st st'\<close>: \<open>st'\<close> is the state after some number of completed iterations
  of the loop body started in \<open>st\<close>.
\<close>

inductive reaches :: "params \<Rightarrow> state \<Rightarrow> state \<Rightarrow> bool" for p :: params and st :: state where
  start: "reaches p st st"
| iterate: "reaches p st st' \<Longrightarrow> body p z st' = Inr st'' \<Longrightarrow> reaches p st st''"

text \<open>
  \<open>accepts p st st' k\<close>: \<open>st'\<close> is reached from \<open>st\<close> by completed iterations of which
  \<open>k\<close> were accepted, that is, improved the incumbent objective.
\<close>

inductive accepts :: "params \<Rightarrow> state \<Rightarrow> state \<Rightarrow> nat \<Rightarrow> bool" for p :: params and st :: state where
  none: "accepts p st st 0"
| kept: "accepts p st st' k \<Longrightarrow> body p z st' = Inr st'' \<Longrightarrow> \<not> f_opt st'' < f_opt st'
         \<Longrightarrow> accepts p st st'' k"
| improved: "accepts p st st' k \<Longrightarrow> body p z st' = Inr st'' \<Longrightarrow> f_opt st'' < f_opt st'
         \<Longrightarrow> accepts p st st'' (Suc k)"

subsection \<open>Invariant of the history\<close>

text \<open>
  \<open>recorded p st\<close>: the columns \<open>0, \<dots>, iteration - 1\<close> of the table are written, the
  last of them records the incumbent, and the recorded objectives decrease strictly.
\<close>

definition recorded :: "params \<Rightarrow> state \<Rightarrow> bool" where
  "recorded p st \<longleftrightarrow>
     1 \<le> iteration st \<and> iteration st \<le> length (cvg_hst st)
     \<and> (\<forall>j<length (cvg_hst st). length (cvg_hst st ! j) = nvars p + 5)
     \<and> (\<forall>j<iteration st. list_all isfinite (cvg_hst st ! j))
     \<and> (\<exists>xx mg fc cx cf. unscale p (x_opt st) = Inr xx \<and> length xx = nvars p
            \<and> cvg_hst st ! (iteration st - 1) = column xx (f_opt st) mg fc cx cf)
     \<and> (\<forall>j. Suc j < iteration st \<longrightarrow>
            cell (cvg_hst st ! Suc j ! nvars p) < cell (cvg_hst st ! j ! nvars p))"

subsection \<open>The contract of the Step Projector\<close>

text \<open>
  From an in-box point, the multiplier returned for a direction keeps the stepped
  point in the box.
\<close>

definition keeps_in_box :: "(vec \<Rightarrow> vec \<Rightarrow> real) \<Rightarrow> bool" where
  "keeps_in_box proj \<longleftrightarrow>
     (\<forall>x d y. in_box x \<longrightarrow> np_add x (smul (proj x d) d) = Inr y \<longrightarrow> in_box y)"

text \<open>The point the Evaluator returns for the seed is in the box.\<close>

definition seed_in_box :: "params \<Rightarrow> vec \<Rightarrow> bool" where
  "seed_in_box p x_init =
     (case seed_point p x_init of Inl e \<Rightarrow> True | Inr y \<Rightarrow> in_box (ev_x (evaluator p y)))"

text \<open>The current point and all points handed to the Evaluator so far are in the box.\<close>

definition box_ok :: "state \<Rightarrow> bool" where
  "box_ok st \<longleftrightarrow> in_box (x1 st) \<and> list_all in_box (handed st)"

subsection \<open>Collaborators for concrete runs\<close>

text \<open>
  Modelled from the spec: the Evaluator \<^verbatim>\<open>avg_cov_func\<close> is not part of the sources.
  This one corrects the point to the box, maps it back to original units, calls the
  objective function once and returns its objective and constraints unchanged
  (the evaluation increment is 1).
\<close>

definition plain_evaluator :: "(vec \<Rightarrow> real \<times> vec) \<Rightarrow> vec \<Rightarrow> vec \<Rightarrow> vec \<Rightarrow> evaluation" where
  "plain_evaluator func c0 c1 x =
     (let y = clip x;
          (f, g) = func (map2 (\<lambda>v (a, b). (v - a) / b) y (zip c0 c1))
      in \<lparr>ev_f = Scalar f, ev_g = g, ev_x = y, ev_n = 1\<rparr>)"

text \<open>
  Modelled from the spec: the Step Projector \<^verbatim>\<open>box_constraint\<close> is not part of the
  sources. It limits the step to what is feasible: \<open>max_step x d\<close> is the largest
  multiplier \<open>a\<close>, not above the nominal step 1, that keeps \<open>x + a * d\<close> within
  \<open>[-1, 1]\<close> componentwise.
\<close>

definition step_limits :: "vec \<Rightarrow> vec \<Rightarrow> real list" where
  "step_limits x d =
     (case broadcast x d of
        Inl e \<Rightarrow> []
      | Inr ps \<Rightarrow>
          map (\<lambda>(v, u). if 0 < u then (1 - v) / u else (- 1 - v) / u)
            (filter (\<lambda>(v, u). u \<noteq> 0) ps))"

definition max_step :: "vec \<Rightarrow> vec \<Rightarrow> real" where
  "max_step x d = fold min (step_limits x d) 1"

text \<open>Objective functions and options of the example runs.\<close>

definition constant_objective :: "real \<Rightarrow> vec \<Rightarrow> real \<times> vec" where
  "constant_objective c x = (c, [- 1])"

definition example_options :: "int \<Rightarrow> bool \<Rightarrow> options" where
  "example_options budget stop_feasible =
     \<lparr>msglev = 0, tol_x = 0, tol_f = 0, tol_g = 0, max_evals = budget,
      find_feas = stop_feasible\<rparr>"

text \<open>
  A staircase in one variable that descends towards the upper bound, with a barrier
  before a pit at the bound itself; its one constraint is always satisfied.
\<close>

definition staircase_objective :: "vec \<Rightarrow> real \<times> vec" where
  "staircase_objective x =
     (case x of
        [v] \<Rightarrow> (if v < 3 / 5 then 3
                else if v < 4 / 5 then 2
                else if v < 37 / 40 then 6 / 5
                else if v < 39 / 40 then 5 / 2
                else 0, [- 1])
      | _ \<Rightarrow> (3, [- 1]))"

text \<open>
  An Evaluator that reports a point outside the box as the point it evaluated
  (objective 0, one satisfied constraint, one evaluation).
\<close>

definition stray_evaluator :: "vec \<Rightarrow> vec \<Rightarrow> vec \<Rightarrow> evaluation" where
  "stray_evaluator c0 c1 x = \<lparr>ev_f = Scalar 0, ev_g = [- 1], ev_x = [2], ev_n = 1\<rparr>"

text \<open>
  The parameters of the example runs: one variable with bounds \<open>[-1, 1]\<close>, for which
  the scaling constants are \<open>s0 = 0\<close> and \<open>s1 = 1\<close>.
\<close>

definition example_params :: "(vec \<Rightarrow> vec \<Rightarrow> vec \<Rightarrow> evaluation) \<Rightarrow> options \<Rightarrow> params" where
  "example_params avg_cov_func oi =
     \<lparr>evaluator = avg_cov_func [0] [1], box_constraint = max_step,
      opts = oi, lower = [- 1], upper = [1], s0 = [0], s1 = [1], nvars = 1\<rparr>"

text \<open>
  The states of three example runs, written out: a run on the staircase
  (\<open>stair_0\<close> after the seed evaluation, \<open>stair_1\<close> and \<open>stair_2\<close> after the first and
  the second iteration), runs on the constant 0, a run on the constant -1 and a run with
  the Evaluator that strays.
\<close>

definition staircase_params :: params where
  "staircase_params = example_params (plain_evaluator staircase_objective) (example_options 6 False)"

definition stair_0 :: state where
  "stair_0 =
     \<lparr>x1 = [1 / 2], g1 = None, x2 = [1 / 2], g2 = [- 1], x3 = [1 / 2], g3 = [- 1],
      x4 = [1 / 2], g4 = [- 1], c4 = False, fa = [3, 0, 0, 3], quad_update = False, i_min = 0,
      sigma = 1 / 5, function_count = 1, iteration = 1,
      cvg_hst = (replicate 6 (replicate 6 None))[0 := column [1 / 2] 3 (- 1) 1 1 1],
      x_opt = [1 / 2], f_opt = 3, g_opt = [- 1], cvg_x = 1, cvg_f = 1,
      handed = [[1 / 2]]\<rparr>"

definition stair_1 :: state where
  "stair_1 =
     \<lparr>x1 = [1], g1 = Some [- 1], x2 = [7 / 10], g2 = [- 1], x3 = [9 / 10], g3 = [- 1],
      x4 = [1], g4 = [- 1], c4 = True, fa = [3, 2, 6 / 5, 0], quad_update = True, i_min = 3,
      sigma = 1 / 15, function_count = 4, iteration = 2,
      cvg_hst = (replicate 6 (replicate 6 None))
        [0 := column [1 / 2] 3 (- 1) 1 1 1,
         1 := column [1] 0 (- 1) 4 (5000000000000000 / 10000000000000001) 30000000000000000],
      x_opt = [1], f_opt = 0, g_opt = [- 1],
      cvg_x = 5000000000000000 / 10000000000000001, cvg_f = 30000000000000000,
      handed = [[1 / 2], [7 / 10], [9 / 10], [1]]\<rparr>"

definition stair_2 :: state where
  "stair_2 =
     stair_1\<lparr>x2 := [19 / 20], x3 := [9 / 10], fa := [3, 5 / 2, 6 / 5, 0], quad_update := False,
       i_min := 3, sigma := 0, function_count := 6,
       handed := [[1 / 2], [7 / 10], [9 / 10], [1], [19 / 20], [9 / 10]]\<rparr>"

definition stair_out :: returned_tuple where
  "stair_out =
     \<lparr>x_opt_out = [1], f_opt_out = 0, g_opt_out = [- 1],
      out_hist = [column [1 / 2] 3 (- 1) 1 1 1,
                  column [1] 0 (- 1) 4 (5000000000000000 / 10000000000000001) 30000000000000000]\<rparr>"

definition zero_params :: "bool \<Rightarrow> params" where
  "zero_params stop_feasible =
     example_params (plain_evaluator (constant_objective 0)) (example_options 5 stop_feasible)"

definition zero_0 :: state where
  "zero_0 =
     \<lparr>x1 = [0], g1 = None, x2 = [0], g2 = [- 1], x3 = [0], g3 = [- 1],
      x4 = [0], g4 = [- 1], c4 = False, fa = [0, 0, 0, 0], quad_update = False, i_min = 0,
      sigma = 1 / 5, function_count = 1, iteration = 1,
      cvg_hst = (replicate 5 (replicate 6 None))[0 := column [0] 0 (- 1) 1 1 1],
      x_opt = [0], f_opt = 0, g_opt = [- 1], cvg_x = 1, cvg_f = 1,
      handed = [[0]]\<rparr>"

definition zero_1 :: state where
  "zero_1 = zero_0\<lparr>x2 := [1 / 5], x3 := [- 1 / 5], function_count := 3,
     handed := [[0], [1 / 5], [- 1 / 5]]\<rparr>"

definition zero_2 :: state where
  "zero_2 = zero_1\<lparr>function_count := 5,
     handed := [[0], [1 / 5], [- 1 / 5], [1 / 5], [- 1 / 5]]\<rparr>"

definition zero_out :: returned_tuple where
  "zero_out =
     \<lparr>x_opt_out = [0], f_opt_out = 0, g_opt_out = [- 1],
      out_hist = [column [0] 0 (- 1) 1 1 1]\<rparr>"

definition minus_params :: params where
  "minus_params =
     example_params (plain_evaluator (constant_objective (- 1))) (example_options 5 False)"

definition stray_params :: params where
  "stray_params = example_params stray_evaluator (example_options 2 False)"

definition stray_0 :: state where
  "stray_0 =
     \<lparr>x1 = [2], g1 = None, x2 = [2], g2 = [- 1], x3 = [2], g3 = [- 1],
      x4 = [2], g4 = [- 1], c4 = False, fa = [0, 0, 0, 0], quad_update = False, i_min = 0,
      sigma = 1 / 5, function_count = 1, iteration = 1,
      cvg_hst = (replicate 2 (replicate 6 None))[0 := column [2] 0 (- 1) 1 1 1],
      x_opt = [2], f_opt = 0, g_opt = [- 1], cvg_x = 1, cvg_f = 1,
      handed = [[0]]\<rparr>"

definition stray_1 :: state where
  "stray_1 = stray_0\<lparr>x1 := [1], function_count := 3, handed := [[0], [9 / 5], [1]]\<rparr>"

section \<open>Properties\<close>

subsection \<open>The stages of an iteration\<close>

lemma then_do_Inr: "then_do m f = Inr v \<Longrightarrow> \<exists>u. m = Inr u \<and> f u = Inr v"
  by (cases m) (simp_all add: then_do_def)

lemma then_do_Inl: "then_do m f = Inl e \<Longrightarrow> m = Inl e \<or> (\<exists>u. m = Inr u \<and> f u = Inl e)"
  by (cases m) (simp_all add: then_do_def)

lemma body_Inr:
  assumes "body p z st = Inr st'"
  obtains a b c d where "forward_probe p (smul (sigma st) (randn (nvars p) z)) st = Inr a"
    and "secondary_probe p (smul (sigma st) (randn (nvars p) z)) a = Inr b"
    and "quadratic_probe p (smul (sigma st) (randn (nvars p) z)) b = Inr c"
    and "choose_best p c = Inr d"
    and "update_incumbent p d = Inr st'"
  using assms unfolding body_def Let_def by (blast dest: then_do_Inr)

lemma forward_probe_Inr:
  assumes "forward_probe p r st = Inr st'"
  obtains y f where "forward_point p r st = Inr y"
    "as_cell (ev_f (evaluator p y)) = Inr f"
    "st' = st\<lparr>function_count := function_count st + ev_n (evaluator p y),
             handed := handed st @ [y],
             x2 := ev_x (evaluator p y),
             g2 := ev_g (evaluator p y),
             fa := (fa st)[1 := f]\<rparr>"
  using assms
  by (auto simp add: forward_probe_def evaluate_at_def call_ev_def Let_def split: sum.splits)

lemma secondary_probe_Inr:
  assumes "secondary_probe p r st = Inr st'"
  obtains y f where "second_point p r st = Inr y"
    "as_cell (ev_f (evaluator p y)) = Inr f"
    "st' = st\<lparr>function_count := function_count st + ev_n (evaluator p y),
             handed := handed st @ [y],
             x3 := ev_x (evaluator p y),
             g3 := ev_g (evaluator p y),
             fa := (fa st)[2 := f]\<rparr>"
  using assms
  by (auto simp add: secondary_probe_def evaluate_at_def call_ev_def Let_def split: sum.splits)

lemma quadratic_probe_Inr:
  assumes "quadratic_probe p r st = Inr st'"
  obtains (skipped) a b c where "local_fit r st = Inr (a, b, c)" "\<not> 0 < a"
      "st' = st\<lparr>quad_update := False\<rparr>"
  | (probed) a b c y f where "local_fit r st = Inr (a, b, c)" "0 < a"
      "quad_point p r st a b = Inr y"
      "as_cell (ev_f (evaluator p y)) = Inr f"
      "st' = st\<lparr>function_count := function_count st + ev_n (evaluator p y),
             handed := handed st @ [y],
             x4 := ev_x (evaluator p y),
             g4 := ev_g (evaluator p y),
             c4 := True,
             fa := (fa st)[3 := f],
             quad_update := True\<rparr>"
  using assms
  by (auto simp add: quadratic_probe_def evaluate_at_def call_ev_def Let_def quad_point_def
      split: sum.splits if_splits prod.splits)

lemma in_box_clip: "in_box (clip y)"
  by (simp add: in_box_def clip_def list_all_iff)

lemma choose_best_Inr:
  assumes "choose_best p st = Inr st'"
  shows "i_min st' = argmin (fa st)" "fa st' = fa st" "cvg_hst st' = cvg_hst st"
    "iteration st' = iteration st" "x_opt st' = x_opt st" "f_opt st' = f_opt st"
    "g_opt st' = g_opt st" "cvg_x st' = cvg_x st" "cvg_f st' = cvg_f st"
    "handed st' = handed st" "function_count st' = function_count st"
    "quad_update st' = quad_update st" "in_box (x1 st')"
    "argmin (fa st) = 0 \<Longrightarrow> x1 st' = clip (x1 st) \<and> g1 st' = g1 st \<and> sigma st' = sigma st"
    "x4 st' = x4 st" "g4 st' = g4 st" "c4 st' = c4 st"
  using assms by (auto simp add: choose_best_def Let_def in_box_clip split: if_splits prod.splits)

lemma update_incumbent_Inr:
  assumes "update_incumbent p st = Inr st'"
  obtains (kept) "\<not> fa st ! i_min st < f_opt st" "st' = st"
  | (accepted) g mg h xx cx where "fa st ! i_min st < f_opt st" "g1 st = Some g" "np_max g = Inr mg"
      "iteration st - 1 < length (cvg_hst st)"
      "unscale p (x1 st) = Inr xx"
      "ratio_x (iteration st) (take (nvars p) (cvg_hst st ! (iteration st - 1))) xx = Inr cx"
      "write_column (cvg_hst st) (iteration st)
         (column xx (fa st ! i_min st) mg (function_count st) cx
            (ratio_f (iteration st) (cvg_hst st ! (iteration st - 1) ! nvars p) (fa st ! i_min st)))
       = Inr h"
      "st' = st\<lparr>x_opt := x1 st, f_opt := fa st ! i_min st, g_opt := g,
              cvg_x := cx,
              cvg_f := ratio_f (iteration st) (cvg_hst st ! (iteration st - 1) ! nvars p) (fa st ! i_min st),
              iteration := iteration st + 1, cvg_hst := h\<rparr>"
  using assms
  by (auto simp add: update_incumbent_def Let_def split: if_splits option.splits sum.splits)

lemma length_column: "length (column xx f mg fc cx cf) = length xx + 5"
  by (simp add: column_def)

lemma column_finite: "list_all isfinite (column xx f mg fc cx cf)"
  by (simp add: column_def isfinite_def list_all_iff)

lemma column_objective: "cell (column xx f mg fc cx cf ! length xx) = f"
  by (simp add: column_def cell_def nth_append)

lemma write_column_Inr:
  assumes "write_column h j col = Inr h'"
  shows "j < length h" "length col = length (h ! j)" "h' = h[j := col]"
  using assms by (auto simp add: write_column_def split: if_splits)

lemma initialise_Inr:
  assumes "initialise p x_init = Inr st"
  obtains y xx fv mg h where "seed_point p x_init = Inr y"
    "ev_f (evaluator p y) = Scalar fv" "unscale p (ev_x (evaluator p y)) = Inr xx"
    "np_max (ev_g (evaluator p y)) = Inr mg"
    "write_column (replicate (nat (max 1 (max_evals (opts p)))) (replicate (nvars p + 5) None)) 0
          (column xx fv mg (ev_n (evaluator p y)) 1 1) = Inr h"
    "x1 st = ev_x (evaluator p y)" "x_opt st = ev_x (evaluator p y)" "f_opt st = fv"
    "g_opt st = ev_g (evaluator p y)" "fa st = [fv, 0, 0, fv]"
    "function_count st = ev_n (evaluator p y)" "iteration st = 1" "cvg_hst st = h"
    "handed st = [y]" "sigma st = 0.2" "cvg_x st = 1" "cvg_f st = 1" "c4 st = False"
  using assms
  by (auto simp add: initialise_def Let_def split: objective.splits sum.splits)

lemma recorded_initialise:
  assumes "initialise p x_init = Inr st"
  shows "recorded p st"
proof -
  from assms obtain y xx fv mg h where
    u: "unscale p (x_opt st) = Inr xx"
    and w: "write_column (replicate (nat (max 1 (max_evals (opts p)))) (replicate (nvars p + 5) None)) 0
          (column xx fv mg (function_count st) 1 1) = Inr h"
    and st: "cvg_hst st = h" "iteration st = 1" "f_opt st = fv"
    by (elim initialise_Inr) simp
  from write_column_Inr[OF w] have pos: "0 < nat (max 1 (max_evals (opts p)))"
    and len: "length xx = nvars p"
    and h: "h = (replicate (nat (max 1 (max_evals (opts p)))) (replicate (nvars p + 5) None))
                  [0 := column xx fv mg (function_count st) 1 1]"
    by (simp_all add: length_column)
  show ?thesis
    unfolding recorded_def st h u using pos len
    by (auto simp add: length_column column_finite nth_list_update)
qed

lemma recorded_cong:
  "cvg_hst st' = cvg_hst st \<Longrightarrow> iteration st' = iteration st \<Longrightarrow> x_opt st' = x_opt st
   \<Longrightarrow> f_opt st' = f_opt st \<Longrightarrow> recorded p st' = recorded p st"
  by (simp add: recorded_def)

lemma before_update:
  assumes "body p z st = Inr st'"
  obtains d where "update_incumbent p d = Inr st'"
    "cvg_hst d = cvg_hst st" "iteration d = iteration st" "x_opt d = x_opt st"
    "f_opt d = f_opt st" "g_opt d = g_opt st" "cvg_x d = cvg_x st" "cvg_f d = cvg_f st"
    "fa d ! 0 = fa st ! 0" "i_min d = argmin (fa d)" "in_box (x1 d)"
proof -
  from assms obtain a b c d where
    a: "forward_probe p (smul (sigma st) (randn (nvars p) z)) st = Inr a"
    and b: "secondary_probe p (smul (sigma st) (randn (nvars p) z)) a = Inr b"
    and c: "quadratic_probe p (smul (sigma st) (randn (nvars p) z)) b = Inr c"
    and d: "choose_best p c = Inr d"
    and u: "update_incumbent p d = Inr st'"
    by (rule body_Inr)
  have fa: "cvg_hst a = cvg_hst st \<and> iteration a = iteration st \<and> x_opt a = x_opt st
      \<and> f_opt a = f_opt st \<and> g_opt a = g_opt st \<and> cvg_x a = cvg_x st \<and> cvg_f a = cvg_f st
      \<and> fa a ! 0 = fa st ! 0"
    using a by (elim forward_probe_Inr) simp
  have fb: "cvg_hst b = cvg_hst a \<and> iteration b = iteration a \<and> x_opt b = x_opt a
      \<and> f_opt b = f_opt a \<and> g_opt b = g_opt a \<and> cvg_x b = cvg_x a \<and> cvg_f b = cvg_f a
      \<and> fa b ! 0 = fa a ! 0"
    using b by (elim secondary_probe_Inr) simp
  have fc: "cvg_hst c = cvg_hst b \<and> iteration c = iteration b \<and> x_opt c = x_opt b
      \<and> f_opt c = f_opt b \<and> g_opt c = g_opt b \<and> cvg_x c = cvg_x b \<and> cvg_f c = cvg_f b
      \<and> fa c ! 0 = fa b ! 0"
    using c by (elim quadratic_probe_Inr) simp_all
  note fd = choose_best_Inr[OF d]
  show ?thesis
    by (rule that[OF u]) (simp_all add: fa fb fc fd)
qed

lemma recorded_update:
  assumes r: "recorded p st" and u: "update_incumbent p st = Inr st'"
  shows "recorded p st'"
  using u
proof (cases rule: update_incumbent_Inr)
  case kept
  with r show ?thesis by simp
next
  case (accepted g mg h xx cx)
  let ?it = "iteration st"
  let ?fo = "fa st ! i_min st"
  note w = write_column_Inr[OF accepted(7)]
  from r have it: "1 \<le> ?it"
    and lens: "\<forall>j<length (cvg_hst st). length (cvg_hst st ! j) = nvars p + 5"
    and fin: "\<forall>j<?it. list_all isfinite (cvg_hst st ! j)"
    and mono: "\<forall>j. Suc j < ?it \<longrightarrow>
            cell (cvg_hst st ! Suc j ! nvars p) < cell (cvg_hst st ! j ! nvars p)"
    by (simp_all add: recorded_def)
  from r obtain pxx pmg pfc pcx pcf where
    lx: "length pxx = nvars p"
    and prev: "cvg_hst st ! (?it - 1) = column pxx (f_opt st) pmg pfc pcx pcf"
    by (auto simp add: recorded_def)
  have prevf: "cell (cvg_hst st ! (?it - 1) ! nvars p) = f_opt st"
    unfolding prev using column_objective[of pxx] lx by simp
  from w(1,2) lens have lxx: "length xx = nvars p"
    by (simp add: length_column)
  have newf: "cell (h ! ?it ! nvars p) = ?fo"
    unfolding w(3) using w(1) column_objective[of xx] lxx by simp
  have old: "\<And>j. j < ?it \<Longrightarrow> h ! j = cvg_hst st ! j"
    unfolding w(3) by simp
  have new: "h ! ?it = column xx ?fo mg (function_count st) cx
       (ratio_f ?it (cvg_hst st ! (?it - 1) ! nvars p) ?fo)"
    unfolding w(3) using w(1) by simp
  have m: "cell (h ! Suc j ! nvars p) < cell (h ! j ! nvars p)" if "Suc j < ?it + 1" for j
  proof (cases "Suc j = ?it")
    case True
    then have "j = ?it - 1" "j < ?it" by simp_all
    with True newf prevf old[of j] accepted(1) show ?thesis by simp
  next
    case False
    with that have "Suc j < ?it" by simp
    with mono old[of j] old[of "Suc j"] show ?thesis by simp
  qed
  have f: "list_all isfinite (h ! j)" if "j < ?it + 1" for j
  proof (cases "j = ?it")
    case True
    then show ?thesis using new column_finite by simp
  next
    case False
    with that have "j < ?it" by simp
    with fin old[of j] show ?thesis by simp
  qed
  have l: "length (h ! j) = nvars p + 5" if "j < length h" for j
    using that lens w(1,2) unfolding w(3) by (cases "j = ?it") (simp_all)
  show ?thesis
    unfolding recorded_def accepted(8)
    using it w(1) lxx new m f l accepted(5) by (auto simp add: w(3))
qed

lemma recorded_body:
  assumes "recorded p st" and "body p z st = Inr st'"
  shows "recorded p st'"
proof -
  from assms(2) obtain d where d: "update_incumbent p d = Inr st'"
    "cvg_hst d = cvg_hst st" "iteration d = iteration st" "x_opt d = x_opt st" "f_opt d = f_opt st"
    by (rule before_update)
  from recorded_cong[OF d(2-5), of p] assms(1) have "recorded p d" by simp
  then show ?thesis using d(1) by (rule recorded_update)
qed

lemma reaches_recorded:
  assumes "reaches p st st'" and "recorded p st"
  shows "recorded p st'"
  using assms by (induction rule: reaches.induct) (auto intro: recorded_body)

lemma reaches_trans: "reaches p b c \<Longrightarrow> reaches p a b \<Longrightarrow> reaches p a c"
  by (induction rule: reaches.induct) (auto intro: reaches.iterate)

lemma loop_reaches:
  "loop p zs st = Stopped why st' \<Longrightarrow> reaches p st st'"
proof (induction zs arbitrary: st)
  case Nil
  then show ?case by (auto split: if_splits intro: reaches.start)
next
  case (Cons z zs)
  show ?case
  proof (cases "function_count st < max_evals (opts p)")
    case False
    with Cons.prems show ?thesis by (auto intro: reaches.start)
  next
    case True
    with Cons.prems obtain st1 where b: "body p z st = Inr st1"
      by (auto split: sum.splits prod.splits)
    have step: "reaches p st st1" using reaches.iterate[OF reaches.start b] .
    show ?thesis
    proof (cases "termination_check p st1")
      case (Inl e)
      with Cons.prems True b show ?thesis by (auto split: prod.splits)
    next
      case (Inr w)
      show ?thesis
      proof (cases w)
        case None
        with Cons.prems True b Inr have "loop p zs st1 = Stopped why st'" by simp
        from Cons.IH[OF this] have "reaches p st1 st'" .
        from this step show ?thesis by (rule reaches_trans)
      next
        case (Some r)
        with Cons.prems True b Inr have "st' = st1" by simp
        with step show ?thesis by simp
      qed
    qed
  qed
qed

subsection \<open>The base cost and the history\<close>

lemma update_incumbent_keeps:
  assumes "update_incumbent p st = Inr st'"
  shows "fa st' = fa st" "i_min st' = i_min st" "x1 st' = x1 st" "handed st' = handed st"
    "function_count st' = function_count st" "quad_update st' = quad_update st"
    "sigma st' = sigma st" "c4 st' = c4 st"
  using assms by (cases rule: update_incumbent_Inr; simp)+

lemma body_base_cost:
  assumes "body p z st = Inr st'"
  shows "fa st' ! 0 = fa st ! 0" "i_min st' = argmin (fa st')"
proof -
  from assms obtain d where d: "update_incumbent p d = Inr st'" "fa d ! 0 = fa st ! 0"
    "i_min d = argmin (fa d)"
    by (rule before_update)
  from update_incumbent_keeps[OF d(1)] d(2,3)
  show "fa st' ! 0 = fa st ! 0" "i_min st' = argmin (fa st')" by simp_all
qed

lemma reaches_base_cost:
  "reaches p st st' \<Longrightarrow> fa st' ! 0 = fa st ! 0"
  by (induction rule: reaches.induct) (simp_all add: body_base_cost)

lemma initialise_base_cost:
  assumes "initialise p x_init = Inr st"
  shows "\<exists>y. seed_point p x_init = Inr y \<and> ev_f (evaluator p y) = Scalar (fa st ! 0)"
  using assms by (elim initialise_Inr) simp

text \<open>
  C9. The base slot \<open>fa ! 0\<close> is assigned the seed objective before the loop and no
  iteration reassigns it: in every state the loop reaches, \<open>fa ! 0\<close> is the objective
  of the initial guess, an iteration leaves it as it was, and the index selected by the
  iteration is the \<^verbatim>\<open>argmin\<close> over the costs with that base value.
\<close>

theorem base_cost_is_seed_objective:
  assumes "make_params A B x_init x_lb x_ub oi = Inr (Some p)"
    and "initialise p x_init = Inr st0" and "reaches p st0 st" and "body p z st = Inr st'"
  shows "(\<exists>y. seed_point p x_init = Inr y \<and> ev_f (evaluator p y) = Scalar (fa st ! 0))
         \<and> fa st' ! 0 = fa st ! 0 \<and> i_min st' = argmin (fa st')"
  using initialise_base_cost[OF assms(2)] reaches_base_cost[OF assms(3)] body_base_cost[OF assms(4)]
  by simp

lemma body_accepting:
  assumes "body p z st = Inr st'"
  shows "(f_opt st' = f_opt st \<and> iteration st' = iteration st \<and> cvg_hst st' = cvg_hst st
           \<and> x_opt st' = x_opt st \<and> g_opt st' = g_opt st)
         \<or> (f_opt st' < f_opt st \<and> iteration st' = iteration st + 1)"
proof -
  from assms obtain d where u: "update_incumbent p d = Inr st'"
    and d: "cvg_hst d = cvg_hst st" "iteration d = iteration st" "x_opt d = x_opt st"
      "f_opt d = f_opt st" "g_opt d = g_opt st"
    by (rule before_update)
  from u show ?thesis
    using d by (cases rule: update_incumbent_Inr) simp_all
qed

lemma accepts_iteration: "accepts p st st' k \<Longrightarrow> iteration st' = iteration st + k"
proof (induction rule: accepts.induct)
  case none
  show ?case by simp
next
  case (kept st' k z st'')
  from body_accepting[OF kept(2)] kept(3,4) show ?case by auto
next
  case (improved st' k z st'')
  from body_accepting[OF improved(2)] improved(3,4) show ?case by auto
qed

lemma accepts_reaches: "accepts p st st' k \<Longrightarrow> reaches p st st'"
  by (induction rule: accepts.induct) (auto intro: reaches.intros)

lemma reaches_accepts: "reaches p st st' \<Longrightarrow> \<exists>k. accepts p st st' k"
proof (induction rule: reaches.induct)
  case start
  show ?case by (blast intro: accepts.none)
next
  case (iterate st' z st'')
  then obtain k where "accepts p st st' k" by blast
  with iterate(2) show ?case
    by (cases "f_opt st'' < f_opt st'") (blast intro: accepts.kept accepts.improved)+
qed

lemma last_column: "last (column xx f mg fc cx cf) = Some cf"
  by (simp add: column_def)

lemma finalise_recorded:
  assumes "recorded p st"
  shows "finalise_history (iteration st) (cvg_hst st) = take (iteration st) (cvg_hst st)"
proof -
  from assms have it: "1 \<le> iteration st" "iteration st \<le> length (cvg_hst st)"
    by (simp_all add: recorded_def)
  from assms obtain xx mg fc cx cf where
    c: "cvg_hst st ! (iteration st - 1) = column xx (f_opt st) mg fc cx cf"
    by (auto simp add: recorded_def)
  from it have ne: "take (iteration st) (cvg_hst st) \<noteq> []" by auto
  have "last (take (iteration st) (cvg_hst st)) = cvg_hst st ! (iteration st - 1)"
    using it ne by (simp add: last_conv_nth min_def)
  then have "isfinite (last (last (take (iteration st) (cvg_hst st))))"
    using c by (simp add: last_column isfinite_def)
  then show ?thesis using it by (simp add: finalise_history_def Let_def max_def)
qed

lemma make_params_fields:
  assumes "make_params A B x_init x_lb x_ub oi = Inr (Some p)"
  shows "nvars p = length x_init" "box_constraint p = B" "opts p = oi"
    "evaluator p = A (s0 p) (s1 p)"
  using assms
  by (auto simp add: make_params_def Let_def split: prod.splits option.splits sum.splits)

lemma orsopt_Some:
  assumes "orsopt A B x_init x_lb x_ub oi ds = Some out"
  obtains p st0 why st where "make_params A B x_init x_lb x_ub oi = Inr (Some p)"
    "initialise p x_init = Inr st0" "loop p ds st0 = Stopped why st"
    "returned p x_init st = Inr out"
  using assms
  by (auto simp add: orsopt_def run_def split: option.splits result.splits sum.splits prod.splits)

lemma returned_history:
  "returned p x_init st = Inr out \<Longrightarrow> out_hist out = finalise_history (iteration st) (cvg_hst st)"
  by (auto simp add: returned_def split: sum.splits if_splits)

text \<open>
  C5. In the returned convergence history the recorded objective does not increase
  from one column to the next (row \<open>n\<close> of a column is the objective; both cells are
  defined).
\<close>

theorem history_objective_decreases:
  assumes "orsopt A B x_init x_lb x_ub oi ds = Some out" and "Suc j < length (out_hist out)"
  shows "isfinite (out_hist out ! j ! length x_init)
         \<and> isfinite (out_hist out ! Suc j ! length x_init)
         \<and> cell (out_hist out ! Suc j ! length x_init) \<le> cell (out_hist out ! j ! length x_init)"
proof -
  from assms(1) obtain p st0 why st where p: "make_params A B x_init x_lb x_ub oi = Inr (Some p)"
    and i: "initialise p x_init = Inr st0" and l: "loop p ds st0 = Stopped why st"
    and out: "returned p x_init st = Inr out"
    by (rule orsopt_Some)
  have rec: "recorded p st"
    using loop_reaches[OF l] recorded_initialise[OF i] by (rule reaches_recorded)
  have n: "nvars p = length x_init" using p by (rule make_params_fields)
  have h: "out_hist out = take (iteration st) (cvg_hst st)"
    by (simp add: returned_history[OF out] finalise_recorded[OF rec])
  from rec have it: "iteration st \<le> length (cvg_hst st)" by (simp add: recorded_def)
  from assms(2) h it have j: "Suc j < iteration st" by simp
  from rec j it have len: "length (cvg_hst st ! j) = nvars p + 5" "length (cvg_hst st ! Suc j) = nvars p + 5"
    by (simp_all add: recorded_def)
  from rec j have fin: "list_all isfinite (cvg_hst st ! j)" "list_all isfinite (cvg_hst st ! Suc j)"
    by (simp_all add: recorded_def)
  from rec j have less: "cell (cvg_hst st ! Suc j ! nvars p) < cell (cvg_hst st ! j ! nvars p)"
    by (simp add: recorded_def)
  from fin len have "isfinite (cvg_hst st ! j ! nvars p)" "isfinite (cvg_hst st ! Suc j ! nvars p)"
    by (simp_all add: list_all_length)
  with less show ?thesis using j by (simp add: h n)
qed

text \<open>
  C8, as amended. The returned table has one column more than there were accepted
  iterations: the seed record, then one column for each accepted iteration; it is the
  history truncated to these columns. Every cell of it is defined, so the back-fill of
  line 241, which inspects the last row (the relative objective change) of the last
  column and not the evaluation count, leaves the table as it is.
\<close>

theorem returned_history_is_the_record:
  assumes "orsopt A B x_init x_lb x_ub oi ds = Some out"
  shows "\<exists>p st0 why st k.
           make_params A B x_init x_lb x_ub oi = Inr (Some p)
           \<and> initialise p x_init = Inr st0 \<and> loop p ds st0 = Stopped why st
           \<and> accepts p st0 st k
           \<and> length (out_hist out) = Suc k
           \<and> out_hist out = take (Suc k) (cvg_hst st)
           \<and> list_all (list_all isfinite) (out_hist out)
           \<and> list_all (\<lambda>c. length c = length x_init + 5) (out_hist out)"
proof -
  from assms(1) obtain p st0 why st where p: "make_params A B x_init x_lb x_ub oi = Inr (Some p)"
    and i: "initialise p x_init = Inr st0" and l: "loop p ds st0 = Stopped why st"
    and out: "returned p x_init st = Inr out"
    by (rule orsopt_Some)
  have rec: "recorded p st"
    using loop_reaches[OF l] recorded_initialise[OF i] by (rule reaches_recorded)
  from reaches_accepts[OF loop_reaches[OF l]] obtain k where k: "accepts p st0 st k" by blast
  have "iteration st0 = 1" using i by (elim initialise_Inr)
  with accepts_iteration[OF k] have itk: "iteration st = Suc k" by simp
  have n: "nvars p = length x_init" using p by (rule make_params_fields)
  have h: "out_hist out = take (Suc k) (cvg_hst st)"
    using returned_history[OF out] finalise_recorded[OF rec] by (simp add: itk)
  from rec have it: "Suc k \<le> length (cvg_hst st)" by (simp add: recorded_def itk)
  from rec it have "list_all (list_all isfinite) (take (Suc k) (cvg_hst st))"
    "list_all (\<lambda>c. length c = length x_init + 5) (take (Suc k) (cvg_hst st))"
    by (simp_all add: recorded_def list_all_length n itk)
  with p i l k h it show ?thesis by auto
qed

subsection \<open>The convergence ratios\<close>

lemma take_column: "take (length xx) (column xx f mg fc cx cf) = map Some xx"
  by (simp add: column_def)

lemma nth_column_objective: "column xx f mg fc cx cf ! length xx = Some f"
  by (simp add: column_def nth_append)

lemma cell_Some: "map cell (map Some xs) = xs"
  by (induction xs) (simp_all add: cell_def)

lemma finite_Some: "list_all isfinite (map Some xs)"
  by (simp add: list_all_iff isfinite_def)

text \<open>
  C2, as amended. When an accepted iteration appends a record, the relative variable
  ratio is the norm of the change of the unscaled variable vector divided by the
  magnitude of the \<^emph>\<open>new\<close> accepted vector plus \<open>1e-16\<close>, and the relative objective
  ratio is the absolute objective change divided by the magnitude of the \<^emph>\<open>new\<close>
  accepted objective plus \<open>1e-16\<close>; both are stored in the appended column.
\<close>

theorem convergence_ratios:
  assumes "make_params A B x_init x_lb x_ub oi = Inr (Some p)"
    and "initialise p x_init = Inr st0" and "reaches p st0 st" and "body p z st = Inr st'"
    and "iteration st' \<noteq> iteration st"
  shows "\<exists>xx xx' dv mg.
           unscale p (x_opt st) = Inr xx \<and> unscale p (x_opt st') = Inr xx'
           \<and> np_sub xx xx' = Inr dv
           \<and> cvg_x st' = norm2 dv / (norm2 xx' + 1 / 10 ^ 16)
           \<and> cvg_f st' = \<bar>f_opt st - f_opt st'\<bar> / (\<bar>f_opt st'\<bar> + 1 / 10 ^ 16)
           \<and> cvg_hst st' ! iteration st
                 = column xx' (f_opt st') mg (function_count st') (cvg_x st') (cvg_f st')
           \<and> iteration st' = iteration st + 1"
proof -
  have rec: "recorded p st"
    using assms(3) recorded_initialise[OF assms(2)] by (rule reaches_recorded)
  from assms(4) obtain d where u: "update_incumbent p d = Inr st'"
    and d: "cvg_hst d = cvg_hst st" "iteration d = iteration st" "x_opt d = x_opt st"
      "f_opt d = f_opt st"
    by (rule before_update)
  from rec have it: "1 \<le> iteration st"
    by (simp_all add: recorded_def)
  from rec obtain pxx pmg pfc pcx pcf where
    ux: "unscale p (x_opt st) = Inr pxx" and lx: "length pxx = nvars p"
    and prev: "cvg_hst st ! (iteration st - 1) = column pxx (f_opt st) pmg pfc pcx pcf"
    by (auto simp add: recorded_def)
  have px: "take (nvars p) (cvg_hst st ! (iteration st - 1)) = map Some pxx"
    unfolding prev using take_column[of pxx] lx by simp
  have pf: "cvg_hst st ! (iteration st - 1) ! nvars p = Some (f_opt st)"
    unfolding prev using nth_column_objective[of pxx] lx by simp
  from u show ?thesis
  proof (cases rule: update_incumbent_Inr)
    case kept
    with assms(5) d show ?thesis by simp
  next
    case (accepted g mg h xx cx)
    note w = write_column_Inr[OF accepted(7)]
    from accepted(6) have "ratio_x (iteration st) (map Some pxx) xx = Inr cx"
      unfolding d px .
    with it obtain dv where dv: "np_sub pxx xx = Inr dv"
      and cx: "cx = norm2 dv / (norm2 xx + 1 / 10 ^ 16)"
      by (auto simp add: ratio_x_def finite_Some cell_Some split: sum.splits simp del: map_map)
    have rf: "ratio_f (iteration st) (Some (f_opt st)) (fa d ! i_min d)
        = \<bar>f_opt st - fa d ! i_min d\<bar> / (\<bar>fa d ! i_min d\<bar> + 1 / 10 ^ 16)"
      using it by (simp add: ratio_f_def isfinite_def cell_def)
    have col: "h ! iteration st = column xx (fa d ! i_min d) mg (function_count d) cx
        (ratio_f (iteration st) (Some (f_opt st)) (fa d ! i_min d))"
      using w(1) unfolding w(3) d pf by simp
    show ?thesis
      unfolding accepted(8) using col ux accepted(5) dv cx
      by (auto simp add: d pf[simplified] rf)
  qed
qed

subsection \<open>Degenerate bounds\<close>

lemma broadcast_swap:
  "broadcast x y = Inr ps \<Longrightarrow> broadcast y x = Inr (map (\<lambda>(a, b). (b, a)) ps)"
proof -
  have z: "zip y x = map (\<lambda>(a, b). (b, a)) (zip x y)"
    by (rule zip_commute)
  assume "broadcast x y = Inr ps"
  then show ?thesis
    by (auto simp add: broadcast_def z split: if_splits)
qed

lemma np2_broadcast:
  "broadcast x y = Inr ps \<Longrightarrow> np2 f x y = Inr (map (\<lambda>(a, b). f a b) ps)"
  by (simp add: np2_def)

lemma np2_same_length:
  "length x = length y \<Longrightarrow> np2 f x y = Inr (map2 f x y)"
  by (simp add: np2_def broadcast_def)

text \<open>
  C7, as amended. If the lower and the upper bound of a variable are equal, the
  normalisation divides by zero unguarded: lines 65 and 66 raise no exception and
  substitute no fallback value, and the scaling offset and the scaling factor they
  compute for that variable are both not finite (each is an infinity or \<^verbatim>\<open>nan\<close>).
\<close>

theorem degenerate_bounds_unguarded:
  assumes "bounds_meet x_lb x_ub i"
  shows "\<exists>c0 c1. scaling x_lb x_ub = Inr (c0, c1) \<and> i < length c0 \<and> i < length c1
           \<and> c0 ! i = None \<and> c1 ! i = None"
proof -
  from assms obtain ps where ps: "broadcast x_lb x_ub = Inr ps" and i: "i < length ps"
    and eq: "fst (ps ! i) = snd (ps ! i)"
    by (auto simp add: bounds_meet_def split: sum.splits)
  let ?su = "map (\<lambda>(a, b). a + b) ps"
  let ?dl = "map (\<lambda>(a, b). a - b) ps"
  let ?du = "map (\<lambda>(a, b). a - b) (map (\<lambda>(a, b). (b, a)) ps)"
  have su: "np_add x_lb x_ub = Inr ?su" and dl: "np_sub x_lb x_ub = Inr ?dl"
    unfolding np_add_def np_sub_def by (rule np2_broadcast[OF ps])+
  have du: "np_sub x_ub x_lb = Inr ?du"
    unfolding np_sub_def by (rule np2_broadcast[OF broadcast_swap[OF ps]])
  have c0: "np2 np_div ?su ?dl = Inr (map2 np_div ?su ?dl)"
    by (rule np2_same_length) simp
  have s: "scaling x_lb x_ub = Inr (map2 np_div ?su ?dl, map (np_div 2) ?du)"
    by (simp add: scaling_def su dl du c0)
  have "map2 np_div ?su ?dl ! i = None" "map (np_div 2) ?du ! i = None"
    using i eq by (cases "ps ! i"; simp add: np_div_def)+
  with s i show ?thesis by simp
qed

theorem degenerate_bounds_unguarded_witness:
  "bounds_meet [1] [1] 0
   \<and> (\<exists>c0 c1. scaling [1] [1] = Inr (c0, c1) \<and> 0 < length c0 \<and> 0 < length c1
           \<and> c0 ! 0 = None \<and> c1 ! 0 = None)"
  using degenerate_bounds_unguarded[of "[1]" "[1]" 0]
  by (simp add: bounds_meet_def broadcast_def)

text \<open>
  The claim as stated fails for the bounds \<open>[1]\<close> and \<open>[1]\<close>: the divisor
  \<^verbatim>\<open>x_ub - x_lb\<close> is 0, no exception is raised, and neither scaling constant is a
  finite value.
\<close>

theorem degenerate_bounds_counterexample:
  "np_sub [1] [1] = Inr [0] \<and> scaling [1] [1] = Inr ([None], [None])"
  by (simp add: scaling_def np_add_def np_sub_def np2_def broadcast_def np_div_def)

subsection \<open>The points handed to the Evaluator\<close>

lemma smul_smul: "smul a (smul b r) = smul (a * b) r"
  by (simp add: smul_def)

lemma forward_point_in_box:
  "keeps_in_box (box_constraint p) \<Longrightarrow> in_box (x1 st) \<Longrightarrow> forward_point p r st = Inr y
   \<Longrightarrow> in_box y"
  unfolding keeps_in_box_def forward_point_def Let_def by blast

lemma second_point_in_box:
  "keeps_in_box (box_constraint p) \<Longrightarrow> in_box (x1 st) \<Longrightarrow> second_point p r st = Inr y
   \<Longrightarrow> in_box y"
  unfolding keeps_in_box_def second_point_def Let_def smul_smul[symmetric] by blast

lemma quad_point_in_box:
  "keeps_in_box (box_constraint p) \<Longrightarrow> in_box (x1 st) \<Longrightarrow> quad_point p r st a b = Inr y
   \<Longrightarrow> in_box y"
  unfolding keeps_in_box_def quad_point_def Let_def smul_smul[symmetric] by blast

lemma forward_probe_box:
  assumes "keeps_in_box (box_constraint p)" and "box_ok st"
  shows "case forward_probe p r st of Inl (e, h) \<Rightarrow> list_all in_box h | Inr st' \<Rightarrow> box_ok st'"
  using assms forward_point_in_box[OF assms(1), of st r]
  by (simp add: forward_probe_def evaluate_at_def call_ev_def Let_def box_ok_def split: sum.splits)

lemma secondary_probe_box:
  assumes "keeps_in_box (box_constraint p)" and "box_ok st"
  shows "case secondary_probe p r st of Inl (e, h) \<Rightarrow> list_all in_box h | Inr st' \<Rightarrow> box_ok st'"
  using assms second_point_in_box[OF assms(1), of st r]
  by (simp add: secondary_probe_def evaluate_at_def call_ev_def Let_def box_ok_def split: sum.splits)

lemma quadratic_probe_box:
  assumes "keeps_in_box (box_constraint p)" and "box_ok st"
  shows "case quadratic_probe p r st of Inl (e, h) \<Rightarrow> list_all in_box h | Inr st' \<Rightarrow> box_ok st'"
proof -
  have q: "quad_point p r (st\<lparr>quad_update := False\<rparr>) a b = quad_point p r st a b" for a b
    by (simp add: quad_point_def)
  show ?thesis
    using assms quad_point_in_box[OF assms(1), of st r]
    by (simp add: quadratic_probe_def evaluate_at_def call_ev_def Let_def box_ok_def
        split: sum.splits prod.splits)
qed

lemma choose_best_box:
  assumes "box_ok st"
  shows "case choose_best p st of Inl (e, h) \<Rightarrow> list_all in_box h | Inr st' \<Rightarrow> box_ok st'"
  using assms
  by (simp add: choose_best_def Let_def box_ok_def in_box_clip split: sum.splits prod.splits)

lemma update_incumbent_box:
  assumes "box_ok st"
  shows "case update_incumbent p st of Inl (e, h) \<Rightarrow> list_all in_box h | Inr st' \<Rightarrow> box_ok st'"
  using assms
  by (simp add: update_incumbent_def Let_def box_ok_def split: sum.splits option.splits)

lemma then_do_box:
  assumes "case m of Inl (e, h) \<Rightarrow> list_all in_box h | Inr st' \<Rightarrow> box_ok st'"
    and "\<And>u. box_ok u \<Longrightarrow> case f u of Inl (e, h) \<Rightarrow> list_all in_box h | Inr st' \<Rightarrow> box_ok st'"
  shows "case then_do m f of Inl (e, h) \<Rightarrow> list_all in_box h | Inr st' \<Rightarrow> box_ok st'"
  using assms by (cases m) (simp_all add: then_do_def)

lemma body_box:
  assumes "keeps_in_box (box_constraint p)" and "box_ok st"
  shows "case body p z st of Inl (e, h) \<Rightarrow> list_all in_box h | Inr st' \<Rightarrow> box_ok st'"
  unfolding body_def Let_def
  by (intro then_do_box forward_probe_box secondary_probe_box quadratic_probe_box
      choose_best_box update_incumbent_box assms)

lemma loop_box:
  assumes "keeps_in_box (box_constraint p)" and "box_ok st"
  shows "list_all in_box (trace (loop p zs st))"
  using assms(2)
proof (induction zs arbitrary: st)
  case Nil
  then show ?case by (simp add: box_ok_def trace_def)
next
  case (Cons z zs)
  show ?case
  proof (cases "function_count st < max_evals (opts p)")
    case False
    with Cons.prems show ?thesis by (simp add: box_ok_def trace_def)
  next
    case True
    show ?thesis
    proof (cases "body p z st")
      case (Inl eh)
      with body_box[OF assms(1) Cons.prems, of z] True show ?thesis
        by (simp add: trace_def split: prod.splits)
    next
      case (Inr st1)
      with body_box[OF assms(1) Cons.prems, of z] have b1: "box_ok st1" by simp
      show ?thesis
      proof (cases "termination_check p st1")
        case (Inl eh)
        then have "snd eh = handed st1"
          by (auto simp add: termination_check_def split: sum.splits)
        with Inl Inr True b1 show ?thesis
          by (cases eh) (simp add: box_ok_def trace_def)
      next
        case (Inr w)
        with \<open>body p z st = Inr st1\<close> True b1 Cons.IH[OF b1] show ?thesis
          by (cases w) (simp_all add: box_ok_def trace_def)
      qed
    qed
  qed
qed

text \<open>
  C6, as amended. Under the Step Projector's contract, and provided the point the
  Evaluator returns for the seed is in the box (the first iteration steps from that
  point, which is not clipped again before the loop), every point handed to the
  Evaluator is in the box: up to the end of the run, or up to the exception that ends
  it.
\<close>

theorem evaluated_points_in_box:
  assumes "make_params A B x_init x_lb x_ub oi = Inr (Some p)"
    and "keeps_in_box B"
    and "seed_in_box p x_init"
  shows "list_all in_box (trace (run p x_init ds))"
proof -
  from assms(1) have B: "box_constraint p = B" by (rule make_params_fields)
  show ?thesis
  proof (cases "initialise p x_init")
    case (Inl eh)
    then have "snd eh = [] \<or> (\<exists>y. seed_point p x_init = Inr y \<and> snd eh = [y])"
      by (auto simp add: initialise_def Let_def split: objective.splits sum.splits)
    moreover have "in_box y" if "seed_point p x_init = Inr y" for y
      using that by (auto simp add: seed_point_def in_box_clip split: sum.splits)
    ultimately show ?thesis using Inl
      by (cases eh) (auto simp add: run_def trace_def)
  next
    case (Inr st0)
    then obtain y where y: "seed_point p x_init = Inr y" "x1 st0 = ev_x (evaluator p y)"
      "handed st0 = [y]"
      by (elim initialise_Inr) simp
    from y(1) have "in_box y"
      by (auto simp add: seed_point_def in_box_clip split: sum.splits)
    with y assms(3) have "box_ok st0" by (simp add: box_ok_def seed_in_box_def)
    from loop_box[OF _ this, of p ds] assms(2) B Inr show ?thesis
      by (simp add: run_def)
  qed
qed

subsection \<open>The example Step Projector keeps its contract\<close>

lemma fold_min_le_start: "fold min ls (b::real) \<le> b"
proof (induction ls arbitrary: b)
  case Nil
  show ?case by simp
next
  case (Cons a ls)
  have "fold min ls (min a b) \<le> min a b" by (rule Cons.IH)
  then show ?case by simp
qed

lemma fold_min_le_member: "l \<in> set ls \<Longrightarrow> fold min ls (b::real) \<le> l"
proof (induction ls arbitrary: b)
  case Nil
  then show ?case by simp
next
  case (Cons a ls)
  show ?case
  proof (cases "l = a")
    case True
    have "fold min ls (min a b) \<le> min a b" by (rule fold_min_le_start)
    with True show ?thesis by simp
  next
    case False
    with Cons.prems have "l \<in> set ls" by simp
    from Cons.IH[OF this] show ?thesis by simp
  qed
qed

lemma fold_min_nonneg: "\<forall>l\<in>set ls. 0 \<le> l \<Longrightarrow> 0 \<le> b \<Longrightarrow> 0 \<le> fold min ls (b::real)"
  by (induction ls arbitrary: b) simp_all

lemma broadcast_left:
  "broadcast x d = Inr ps \<Longrightarrow> (v, u) \<in> set ps \<Longrightarrow> v \<in> set x"
  by (auto simp add: broadcast_def length_Suc_conv split: if_splits dest: set_zip_leftD)

lemma step_limits_nonneg:
  assumes "in_box x"
  shows "\<forall>l\<in>set (step_limits x d). 0 \<le> l"
proof
  fix l assume "l \<in> set (step_limits x d)"
  then obtain ps v u where ps: "broadcast x d = Inr ps" and vu: "(v, u) \<in> set ps" "u \<noteq> 0"
    and l: "l = (if 0 < u then (1 - v) / u else (- 1 - v) / u)"
    by (cases "broadcast x d") (auto simp add: step_limits_def)
  from ps vu(1) have "v \<in> set x" by (rule broadcast_left)
  with assms have v: "- 1 \<le> v" "v \<le> 1" by (simp_all add: in_box_def list_all_iff)
  show "0 \<le> l"
  proof (cases "0 < u")
    case True
    with v l show ?thesis by simp
  next
    case False
    with vu(2) have "u < 0" by simp
    with v l show ?thesis by (simp add: divide_nonpos_neg)
  qed
qed

lemma broadcast_smul:
  "broadcast x d = Inr ps \<Longrightarrow> broadcast x (smul a d) = Inr (map (\<lambda>(v, u). (v, a * u)) ps)"
  by (auto simp add: broadcast_def smul_def zip_map2 length_Suc_conv split: if_splits)

lemma max_step_keeps_in_box: "keeps_in_box max_step"
  unfolding keeps_in_box_def
proof (intro allI impI)
  fix x d y assume box: "in_box x" and y: "np_add x (smul (max_step x d) d) = Inr y"
  let ?a = "max_step x d"
  have "length (smul ?a d) = length d" by (simp add: smul_def)
  with y obtain ps where ps: "broadcast x d = Inr ps"
    by (cases "broadcast x d")
       (auto simp add: np_add_def np2_def broadcast_def split: if_splits sum.splits)
  have a0: "0 \<le> ?a"
    unfolding max_step_def using step_limits_nonneg[OF box] by (intro fold_min_nonneg) simp_all
  have ok: "- 1 \<le> v + ?a * u \<and> v + ?a * u \<le> 1" if vu: "(v, u) \<in> set ps" for v u
  proof -
    from ps vu have "v \<in> set x" by (rule broadcast_left)
    with box have v: "- 1 \<le> v" "v \<le> 1" by (simp_all add: in_box_def list_all_iff)
    consider "u = 0" | "0 < u" | "u < 0" by linarith
    then show ?thesis
    proof cases
      case 1
      with v show ?thesis by simp
    next
      case 2
      with vu ps have "(1 - v) / u \<in> set (step_limits x d)"
        by (force simp add: step_limits_def)
      then have "?a \<le> (1 - v) / u" unfolding max_step_def by (rule fold_min_le_member)
      with 2 have "?a * u \<le> 1 - v" by (simp add: pos_le_divide_eq)
      moreover from a0 2 have "0 \<le> ?a * u" by simp
      ultimately show ?thesis using v by simp
    next
      case 3
      with vu ps have "(- 1 - v) / u \<in> set (step_limits x d)"
        by (force simp add: step_limits_def)
      then have "?a \<le> (- 1 - v) / u" unfolding max_step_def by (rule fold_min_le_member)
      with 3 have "- 1 - v \<le> ?a * u" by (simp add: neg_le_divide_eq)
      moreover from a0 3 have "?a * u \<le> 0" by (simp add: mult_nonneg_nonpos)
      ultimately show ?thesis using v by simp
    qed
  qed
  from y broadcast_smul[OF ps, of ?a]
  have "y = map (\<lambda>(v, u). v + ?a * u) ps"
    by (auto simp add: np_add_def np2_def split: prod.splits)
  with ok show "in_box y"
    by (auto simp add: in_box_def list_all_iff)
qed

subsection \<open>Stopping\<close>

lemma body_handed:
  assumes "body p z st = Inr st'"
  shows "\<exists>y2 y3 ys. handed st' = handed st @ y2 # y3 # ys"
proof -
  from assms obtain a b c d where
    a: "forward_probe p (smul (sigma st) (randn (nvars p) z)) st = Inr a"
    and b: "secondary_probe p (smul (sigma st) (randn (nvars p) z)) a = Inr b"
    and c: "quadratic_probe p (smul (sigma st) (randn (nvars p) z)) b = Inr c"
    and d: "choose_best p c = Inr d"
    and u: "update_incumbent p d = Inr st'"
    by (rule body_Inr)
  from a obtain y2 where ha: "handed a = handed st @ [y2]"
    by (elim forward_probe_Inr) simp
  from b obtain y3 where hb: "handed b = handed a @ [y3]"
    by (elim secondary_probe_Inr) simp
  from c obtain ys where hc: "handed c = handed b @ ys"
    by (elim quadratic_probe_Inr) simp_all
  from choose_best_Inr(10)[OF d] update_incumbent_keeps(4)[OF u] ha hb hc
  show ?thesis by simp
qed

lemma body_not_accepting:
  assumes "body p z st = Inr st'" and "iteration st' = iteration st"
  shows "g_opt st' = g_opt st"
  using body_accepting[OF assms(1)] assms(2) by auto

text \<open>
  C4, as amended. With the stop-on-feasible flag set and a feasible initial guess, the
  optimizer does not stop at the seed: no feasibility check precedes the loop. When
  the budget exceeds the seed's count it runs the first iteration in full (at least
  two more points are handed to the Evaluator) and stops at the feasibility check
  that ends this iteration, if the iteration accepts no candidate.
\<close>

theorem feasible_seed_still_iterates:
  assumes "make_params A B x_init x_lb x_ub oi = Inr (Some p)"
    and "find_feas (opts p)" and "initialise p x_init = Inr st0"
    and "np_max (g_opt st0) = Inr mg" and "mg < tol_g (opts p)"
    and "function_count st0 < max_evals (opts p)"
    and "body p z st0 = Inr st1" and "iteration st1 = iteration st0"
  shows "loop p (z # zs) st0 = Stopped Feasible st1
         \<and> length (handed st0) = 1
         \<and> 3 \<le> length (handed st1)"
proof -
  have g: "g_opt st1 = g_opt st0" using assms(7,8) by (rule body_not_accepting)
  have t: "termination_check p st1 = Inr (Some Feasible)"
    by (simp add: termination_check_def g assms(2,4,5))
  have h0: "length (handed st0) = 1" using assms(3) by (elim initialise_Inr) simp
  from body_handed[OF assms(7)] h0 have "3 \<le> length (handed st1)" by auto
  with t h0 show ?thesis by (simp add: assms(6,7))
qed

lemma quad_fit_zero:
  "quad_fit dx2 dx3 [0, 0, 0] = Inr (a, b, c) \<Longrightarrow> a = 0"
  by (auto simp add: quad_fit_def Let_def det3_def split: if_splits)

lemma list4: "length xs = 4 \<Longrightarrow> xs = [xs ! 0, xs ! 1, xs ! 2, xs ! 3]"
  by (auto simp add: list_eq_iff_nth_eq less_Suc_eq numeral_eq_Suc)

lemma argmin_constant: "argmin [c, c, c, c] = 0"
  by (simp add: argmin_def)

text \<open>An iteration on a constant objective.\<close>

lemma constant_iteration:
  assumes ev: "\<And>x. ev_f (evaluator p x) = Scalar c" and n: "\<And>x. ev_n (evaluator p x) = 1"
    and inv: "fa st ! 0 = c" "fa st ! 3 = c" "length (fa st) = 4" "f_opt st = c"
    and body: "body p z st = Inr st'"
  shows "fa st' ! 0 = c" "fa st' ! 3 = c" "length (fa st') = 4" "f_opt st' = c"
    "iteration st' = iteration st" "g_opt st' = g_opt st"
    "function_count st' = function_count st + 2 \<or> function_count st' = function_count st + 3"
    "c = 0 \<longrightarrow> function_count st' = function_count st + 2"
proof -
  let ?r = "smul (sigma st) (randn (nvars p) z)"
  from body obtain a b q d where
    a: "forward_probe p ?r st = Inr a"
    and b: "secondary_probe p ?r a = Inr b"
    and q: "quadratic_probe p ?r b = Inr q"
    and d: "choose_best p q = Inr d"
    and u: "update_incumbent p d = Inr st'"
    by (rule body_Inr)
  have cell: "as_cell (ev_f (evaluator p y)) = Inr f \<Longrightarrow> f = c" for y f
    by (simp add: ev as_cell_def)
  from list4[OF inv(3)] inv(1,2) have fst: "fa st = [c, fa st ! 1, fa st ! 2, c]" by simp
  from a obtain y2 f2 where "as_cell (ev_f (evaluator p y2)) = Inr f2"
    and a': "a = st\<lparr>function_count := function_count st + ev_n (evaluator p y2),
             handed := handed st @ [y2], x2 := ev_x (evaluator p y2),
             g2 := ev_g (evaluator p y2), fa := (fa st)[1 := f2]\<rparr>"
    by (rule forward_probe_Inr)
  then have f2: "f2 = c" by (simp add: cell)
  have "fa a = [c, fa st ! 1, fa st ! 2, c][1 := c]"
    unfolding a' f2 by (subst fst) simp
  then have fa: "fa a = [c, c, fa st ! 2, c]" "function_count a = function_count st + 1"
    "iteration a = iteration st" "g_opt a = g_opt st" "f_opt a = c"
    by (simp_all add: a' n inv)
  from b obtain y3 f3 where "as_cell (ev_f (evaluator p y3)) = Inr f3"
    and b': "b = a\<lparr>function_count := function_count a + ev_n (evaluator p y3),
             handed := handed a @ [y3], x3 := ev_x (evaluator p y3),
             g3 := ev_g (evaluator p y3), fa := (fa a)[2 := f3]\<rparr>"
    by (rule secondary_probe_Inr)
  then have f3: "f3 = c" by (simp add: cell)
  have fb: "fa b = [c, c, c, c]" "function_count b = function_count st + 2"
    "iteration b = iteration st" "g_opt b = g_opt st" "f_opt b = c"
    by (simp_all add: b' f3 n fa)
  from q have fq: "fa q = [c, c, c, c] \<and> iteration q = iteration st \<and> g_opt q = g_opt st
      \<and> f_opt q = c
      \<and> (function_count q = function_count st + 2 \<or> function_count q = function_count st + 3)
      \<and> (c = 0 \<longrightarrow> function_count q = function_count st + 2)"
  proof (cases rule: quadratic_probe_Inr)
    case (skipped qa qb qc)
    then show ?thesis by (simp add: fb)
  next
    case (probed qa qb qc y f)
    from probed(4) have f: "f = c" by (rule cell)
    have "c \<noteq> 0"
    proof
      assume "c = 0"
      with probed(1) have "qa = 0"
        by (auto simp add: local_fit_def fb split: sum.splits dest: quad_fit_zero)
      with probed(2) show False by simp
    qed
    then show ?thesis by (simp add: probed(5) fb f n)
  qed
  from choose_best_Inr[OF d] fq have fd: "fa d = [c, c, c, c]" "i_min d = 0"
    "iteration d = iteration st" "g_opt d = g_opt st" "f_opt d = c"
    "function_count d = function_count q"
    by (simp_all add: argmin_constant)
  from u have "st' = d"
    by (cases rule: update_incumbent_Inr) (simp_all add: fd)
  with fd fq show "fa st' ! 0 = c" "fa st' ! 3 = c" "length (fa st') = 4" "f_opt st' = c"
    "iteration st' = iteration st" "g_opt st' = g_opt st"
    "function_count st' = function_count st + 2 \<or> function_count st' = function_count st + 3"
    "c = 0 \<longrightarrow> function_count st' = function_count st + 2"
    by simp_all
qed

lemma loop_exhausted:
  "\<not> function_count st < max_evals (opts p) \<Longrightarrow> loop p zs st = Stopped Exhausted st"
  by (cases zs) simp_all

lemma initialise_constant:
  assumes "initialise p x_init = Inr st" and "\<And>x. ev_f (evaluator p x) = Scalar c"
    and "\<And>x. ev_n (evaluator p x) = 1"
  shows "fa st ! 0 = c" "fa st ! 3 = c" "length (fa st) = 4" "f_opt st = c"
    "function_count st = 1" "iteration st = 1" "\<exists>mg. np_max (g_opt st) = Inr mg"
  using assms by (elim initialise_Inr; simp)+

text \<open>
  C3, as amended. The budget is tested only at the top of an iteration, so the loop is
  left at the first such test at which the cumulative count has reached the maximum,
  and the count can pass the maximum inside an iteration. With a budget of 5, a
  constant objective, evaluations that count 1 each and the stop-on-feasible flag off,
  a run that raises no exception takes two iterations, appends no record (it cannot
  stop by convergence) and leaves by budget exhaustion with a cumulative count of 5, 6
  or 7: 5 when no quadratic candidate is evaluated, as for the constant 0.
\<close>

theorem constant_objective_budget:
  assumes params: "make_params A B x_init x_lb x_ub oi = Inr (Some p)"
    and init: "initialise p x_init = Inr st0"
    and ev: "\<And>x. ev_f (evaluator p x) = Scalar c" and n: "\<And>x. ev_n (evaluator p x) = 1"
    and budget: "max_evals (opts p) = 5" and nofeas: "\<not> find_feas (opts p)"
    and draws: "2 \<le> length zs"
  shows "(\<exists>e h. loop p zs st0 = Raised e h)
         \<or> (\<exists>st. loop p zs st0 = Stopped Exhausted st
               \<and> 5 \<le> function_count st \<and> function_count st \<le> 7
               \<and> iteration st = 1
               \<and> (c = 0 \<longrightarrow> function_count st = 5))"
proof -
  note i0 = initialise_constant[OF init ev n]
  from i0(7) obtain mg where mg: "np_max (g_opt st0) = Inr mg" by blast
  from draws obtain z1 z2 rest where zs: "zs = z1 # z2 # rest"
    by (cases zs; cases "tl zs") auto
  have check: "termination_check p st = Inr None"
    if "g_opt st = g_opt st0" "iteration st = 1" for st
    by (simp add: termination_check_def that mg nofeas)
  show ?thesis
  proof (cases "body p z1 st0")
    case (Inl eh)
    then have "loop p zs st0 = Raised (fst eh) (snd eh)"
      by (cases eh) (simp add: zs i0 budget)
    then show ?thesis by blast
  next
    case (Inr st1)
    note c1 = constant_iteration[OF ev n i0(1-4) Inr]
    have t1: "termination_check p st1 = Inr None"
      using c1(5,6) i0(6) by (simp add: check)
    have l1: "loop p zs st0 = loop p (z2 # rest) st1"
      by (simp add: zs i0 budget Inr t1)
    from c1(7) i0(5) have lt: "function_count st1 < max_evals (opts p)"
      by (auto simp add: budget)
    show ?thesis
    proof (cases "body p z2 st1")
      case (Inl eh)
      then have "loop p zs st0 = Raised (fst eh) (snd eh)"
        by (cases eh) (simp add: l1 lt)
      then show ?thesis by blast
    next
      case (Inr st2)
      note c2 = constant_iteration[OF ev n c1(1-4) Inr]
      have t2: "termination_check p st2 = Inr None"
        using c1(5,6) c2(5,6) i0(6) by (simp add: check)
      from c1(7) c2(7) i0(5) have ge: "5 \<le> function_count st2" "function_count st2 \<le> 7" by auto
      then have "loop p rest st2 = Stopped Exhausted st2"
        by (intro loop_exhausted) (simp add: budget)
      then have "loop p zs st0 = Stopped Exhausted st2"
        by (simp add: l1 lt Inr t2)
      moreover have "iteration st2 = 1" using c1(5) c2(5) i0(6) by simp
      moreover have "c = 0 \<longrightarrow> function_count st2 = 5" using c1(8) c2(8) i0(5) by simp
      ultimately show ?thesis using ge by blast
    qed
  qed
qed

subsection \<open>Runs in one variable\<close>

lemma norm2_single: "norm2 [v] = \<bar>v\<bar>"
  by (simp add: norm2_def)

lemma np2_single: "np2 f [a] [b] = Inr [f a b]"
  by (simp add: np2_def broadcast_def)

lemma np_single:
  "np_add [a] [b] = Inr [a + b]" "np_sub [a] [b] = Inr [a - b]" "np_mul [a] [b] = Inr [a * b]"
  by (simp_all add: np_add_def np_sub_def np_mul_def np2_single)

lemma smul_single: "smul a [v] = [a * v]"
  by (simp add: smul_def)

lemma clip_single: "clip [v] = [min 1 (max (- 1) v)]"
  by (simp add: clip_def)

lemma randn_single: "randn (Suc 0) z = [z 0]"
  by (simp add: randn_def)

lemma max_step_single:
  "max_step [v] [u] = (if u = 0 then 1 else if 0 < u then min ((1 - v) / u) 1 else min ((- 1 - v) / u) 1)"
  by (simp add: max_step_def step_limits_def broadcast_def)

lemma body_steps:
  assumes "smul (sigma st) (randn (nvars p) z) = r"
    and "forward_probe p r st = Inr a"
    and "secondary_probe p r a = Inr b"
    and "quadratic_probe p r b = Inr c"
    and "choose_best p c = Inr d"
    and "update_incumbent p d = Inr st'"
  shows "body p z st = Inr st'"
  using assms by (simp add: body_def then_do_def)

lemma quadratic_probe_skipped:
  "local_fit r st = Inr (a, b, c) \<Longrightarrow> \<not> 0 < a
   \<Longrightarrow> quadratic_probe p r st = Inr (st\<lparr>quad_update := False\<rparr>)"
  by (simp add: quadratic_probe_def)

lemma quadratic_probe_evaluated:
  "local_fit r st = Inr (a, b, c) \<Longrightarrow> 0 < a
   \<Longrightarrow> quad_point p r st a b = Inr y
   \<Longrightarrow> ev_f (evaluator p y) = Scalar f
   \<Longrightarrow> quadratic_probe p r st
       = Inr (st\<lparr>function_count := function_count st + ev_n (evaluator p y),
                 handed := handed st @ [y],
                 x4 := ev_x (evaluator p y),
                 g4 := ev_g (evaluator p y),
                 c4 := True,
                 fa := (fa st)[3 := f],
                 quad_update := True\<rparr>)"
  by (simp add: quadratic_probe_def evaluate_at_def call_ev_def as_cell_def Let_def quad_point_def)

text \<open>A step of the example projector that would leave the box is cut at the bound.\<close>

lemma max_step_cut:
  assumes "0 < u" and "1 - v \<le> u"
  shows "np_add [v] (smul (max_step [v] [u]) [u]) = Inr [1]"
proof -
  from assms have "max_step [v] [u] = (1 - v) / u"
    by (simp add: max_step_single min_def pos_divide_le_eq)
  with assms(1) show ?thesis by (simp add: np_single smul_single)
qed

lemma quad_point_cut:
  assumes "box_constraint p = max_step" and "x1 st = [v]"
    and "0 < - b / a * w" and "1 - v \<le> - b / a * w"
  shows "quad_point p [w] st a b = Inr [1]"
proof -
  have s: "smul (- b / a) [w] = [- b / a * w]" by (simp add: smul_def)
  show ?thesis
    unfolding quad_point_def Let_def smul_smul[symmetric] assms(1,2) s
    using assms(3,4) by (rule max_step_cut)
qed

lemma fit_stair_1:
  "case quad_fit (2000000000000000 / 2000000000000001) (4000000000000000 / 2000000000000001) [3, 2, 6 / 5] of
     Inl e \<Rightarrow> False | Inr (a, b, c) \<Rightarrow> 0 < a \<and> 5 / 2 \<le> - b / a"
  by (simp add: quad_fit_def det3_def Let_def power2_eq_square)

lemma fit_stair_2:
  "case quad_fit (500000000000000 / 500000000000001) (1000000000000000 / 500000000000001) [3, 5 / 2, 6 / 5] of
     Inl e \<Rightarrow> False | Inr (a, b, c) \<Rightarrow> \<not> 0 < a"
  by (simp add: quad_fit_def det3_def Let_def power2_eq_square)

lemmas stage_defs = forward_probe_def secondary_probe_def choose_best_def update_incumbent_def
  evaluate_at_def call_ev_def as_cell_def argmin_def nu_def forward_point_def second_point_def
  plain_evaluator_def clip_single np_single np2_single smul_single randn_single
  max_step_single np_max_def column_def write_column_def unscale_def
  ratio_x_def ratio_f_def isfinite_def cell_def termination_check_def
  initialise_def seed_point_def example_params_def example_options_def
  norm2_single Let_def

lemma stair_params:
  "make_params (plain_evaluator staircase_objective) max_step [1 / 2] (Some [- 1]) (Some [1])
     (example_options 6 False) = Inr (Some staircase_params)"
  by (simp add: make_params_def default_bounds_def scaling_def np_single np2_single np_div_def
      staircase_params_def example_params_def)

lemma stair_initialise: "initialise staircase_params [1 / 2] = Inr stair_0"
  by (simp add: staircase_params_def stair_0_def staircase_objective_def stage_defs)

lemma stair_body_1: "body staircase_params (\<lambda>i. 1) stair_0 = Inr stair_1"
proof -
  define A where "A = stair_0\<lparr>function_count := 2, handed := [[1 / 2], [7 / 10]],
    x2 := [7 / 10], fa := [3, 2, 0, 3]\<rparr>"
  define B where "B = A\<lparr>function_count := 3, handed := [[1 / 2], [7 / 10], [9 / 10]],
    x3 := [9 / 10], fa := [3, 2, 6 / 5, 3]\<rparr>"
  define C where "C = B\<lparr>function_count := 4, handed := [[1 / 2], [7 / 10], [9 / 10], [1]],
    x4 := [1], c4 := True, fa := [3, 2, 6 / 5, 0], quad_update := True\<rparr>"
  define D where "D = C\<lparr>i_min := 3, x1 := [1], g1 := Some [- 1], sigma := 1 / 15\<rparr>"
  have r: "smul (sigma stair_0) (randn (nvars staircase_params) (\<lambda>i. 1)) = [1 / 5]"
    by (simp add: stair_0_def staircase_params_def example_params_def randn_single smul_single)
  have a: "forward_probe staircase_params [1 / 5] stair_0 = Inr A"
    by (simp add: A_def staircase_params_def stair_0_def staircase_objective_def stage_defs)
  have b: "secondary_probe staircase_params [1 / 5] A = Inr B"
    by (simp add: B_def A_def staircase_params_def stair_0_def staircase_objective_def stage_defs)
  have "local_fit [1 / 5] B
      = quad_fit (2000000000000000 / 2000000000000001) (4000000000000000 / 2000000000000001) [3, 2, 6 / 5]"
    by (simp add: local_fit_def B_def A_def stair_0_def np_single norm2_single)
  with fit_stair_1 obtain qa qb qc where fit: "local_fit [1 / 5] B = Inr (qa, qb, qc)"
    and pos: "0 < qa" and far: "5 / 2 \<le> - qb / qa"
    by (auto split: sum.splits)
  have qp: "quad_point staircase_params [1 / 5] B qa qb = Inr [1]"
  proof (rule quad_point_cut)
    show "box_constraint staircase_params = max_step"
      by (simp add: staircase_params_def example_params_def)
    show "x1 B = [1 / 2]" by (simp add: B_def A_def stair_0_def)
    define dd where "dd = - qb / qa"
    from far have dd: "5 / 2 \<le> dd" by (simp add: dd_def)
    then have "0 < dd * (1 / 5)" and "1 - 1 / 2 \<le> dd * (1 / 5)" by simp_all
    then show "0 < - qb / qa * (1 / 5)" and "1 - 1 / 2 \<le> - qb / qa * (1 / 5)"
      unfolding dd_def .
  qed
  have ev: "evaluator staircase_params [1] = \<lparr>ev_f = Scalar 0, ev_g = [- 1], ev_x = [1], ev_n = 1\<rparr>"
    by (simp add: staircase_params_def staircase_objective_def stage_defs)
  have c: "quadratic_probe staircase_params [1 / 5] B = Inr C"
    unfolding quadratic_probe_evaluated[OF fit pos qp, of 0, unfolded ev, simplified]
    by (simp add: C_def B_def A_def stair_0_def)
  have d: "choose_best staircase_params C = Inr D"
    by (simp add: D_def C_def B_def A_def staircase_params_def stair_0_def stage_defs)
  have u: "update_incumbent staircase_params D = Inr stair_1"
    by (simp add: stair_1_def D_def C_def B_def A_def staircase_params_def stair_0_def stage_defs)
  show ?thesis
    by (rule body_steps[OF r a b c d u])
qed

lemma stair_body_2: "body staircase_params (\<lambda>i. - (3 / 4)) stair_1 = Inr stair_2"
proof -
  define A where "A = stair_1\<lparr>function_count := 5,
    handed := [[1 / 2], [7 / 10], [9 / 10], [1], [19 / 20]],
    x2 := [19 / 20], fa := [3, 5 / 2, 6 / 5, 0]\<rparr>"
  define B where "B = A\<lparr>function_count := 6,
    handed := [[1 / 2], [7 / 10], [9 / 10], [1], [19 / 20], [9 / 10]],
    x3 := [9 / 10], fa := [3, 5 / 2, 6 / 5, 0]\<rparr>"
  define C where "C = B\<lparr>quad_update := False\<rparr>"
  define D where "D = C\<lparr>i_min := 3, x1 := [1], g1 := Some [- 1], sigma := 0\<rparr>"
  have r: "smul (sigma stair_1) (randn (nvars staircase_params) (\<lambda>i. - (3 / 4))) = [- 1 / 20]"
    by (simp add: stair_1_def staircase_params_def example_params_def randn_single smul_single)
  have a: "forward_probe staircase_params [- 1 / 20] stair_1 = Inr A"
    by (simp add: A_def staircase_params_def stair_1_def staircase_objective_def stage_defs)
  have b: "secondary_probe staircase_params [- 1 / 20] A = Inr B"
    by (simp add: B_def A_def staircase_params_def stair_1_def staircase_objective_def stage_defs)
  have "local_fit [- 1 / 20] B
      = quad_fit (500000000000000 / 500000000000001) (1000000000000000 / 500000000000001) [3, 5 / 2, 6 / 5]"
    by (simp add: local_fit_def B_def A_def stair_1_def np_single norm2_single)
  with fit_stair_2 obtain qa qb qc where fit: "local_fit [- 1 / 20] B = Inr (qa, qb, qc)"
    and neg: "\<not> 0 < qa"
    by (auto split: sum.splits)
  have c: "quadratic_probe staircase_params [- 1 / 20] B = Inr C"
    unfolding C_def using fit neg by (rule quadratic_probe_skipped)
  have d: "choose_best staircase_params C = Inr D"
    by (simp add: D_def C_def B_def A_def staircase_params_def stair_1_def stage_defs)
  have u: "update_incumbent staircase_params D = Inr stair_2"
    by (simp add: stair_2_def D_def C_def B_def A_def staircase_params_def stair_1_def stage_defs)
  show ?thesis
    by (rule body_steps[OF r a b c d u])
qed

subsection \<open>The staircase run\<close>

lemma replicate_explicit:
  "replicate 6 x = [x, x, x, x, x, x]" "replicate 5 x = [x, x, x, x, x]" "replicate 2 x = [x, x]"
  by (simp_all add: numeral_eq_Suc)

lemma stair_loop:
  "loop staircase_params [\<lambda>i. 1, \<lambda>i. - (3 / 4)] stair_0 = Stopped Exhausted stair_2"
proof -
  have t1: "termination_check staircase_params stair_1 = Inr None"
    by (simp add: termination_check_def stair_1_def staircase_params_def example_params_def
        example_options_def np_max_def)
  have t2: "termination_check staircase_params stair_2 = Inr None"
    by (simp add: termination_check_def stair_2_def stair_1_def staircase_params_def
        example_params_def example_options_def np_max_def)
  have c0: "function_count stair_0 < max_evals (opts staircase_params)"
    by (simp add: stair_0_def staircase_params_def example_params_def example_options_def)
  have c1: "function_count stair_1 < max_evals (opts staircase_params)"
    by (simp add: stair_1_def staircase_params_def example_params_def example_options_def)
  have c2: "\<not> function_count stair_2 < max_evals (opts staircase_params)"
    by (simp add: stair_2_def stair_1_def staircase_params_def example_params_def example_options_def)
  show ?thesis
    by (simp add: c0 c1 c2 stair_body_1 stair_body_2 t1 t2)
qed

lemma stair_run:
  "run staircase_params [1 / 2] [\<lambda>i. 1, \<lambda>i. - (3 / 4)] = Stopped Exhausted stair_2"
  by (simp add: run_def stair_initialise stair_loop del: loop.simps)

lemma stair_returned: "returned staircase_params [1 / 2] stair_2 = Inr stair_out"
  by (simp add: returned_def x_init_out_def unscale_def np_single np2_single
      staircase_params_def example_params_def example_options_def stair_2_def stair_1_def
      stair_out_def finalise_history_def isfinite_def column_def Let_def replicate_explicit)

lemma stair_orsopt:
  "orsopt (plain_evaluator staircase_objective) max_step [1 / 2] (Some [- 1]) (Some [1])
     (example_options 6 False) [\<lambda>i. 1, \<lambda>i. - (3 / 4)] = Some stair_out"
  by (simp add: orsopt_def stair_params stair_run stair_returned)

lemma stair_accepts: "accepts staircase_params stair_0 stair_2 1"
proof -
  have "accepts staircase_params stair_0 stair_1 (Suc 0)"
    by (rule accepts.improved[OF accepts.none stair_body_1]) (simp add: stair_0_def stair_1_def)
  then have "accepts staircase_params stair_0 stair_2 (Suc 0)"
    by (rule accepts.kept[OF _ stair_body_2]) (simp add: stair_2_def stair_1_def)
  then show ?thesis by simp
qed

subsection \<open>Runs on the constant 0\<close>

lemma fit_zero:
  "case quad_fit (2000000000000000 / 2000000000000001) (2000000000000000 / 2000000000000001) [0, 0, 0] of
     Inl e \<Rightarrow> False | Inr (a, b, c) \<Rightarrow> \<not> 0 < a"
  by (simp add: quad_fit_def det3_def Let_def power2_eq_square)

lemma zero_make_params:
  "make_params (plain_evaluator (constant_objective 0)) max_step [0] (Some [- 1]) (Some [1])
     (example_options 5 sf) = Inr (Some (zero_params sf))"
  by (simp add: make_params_def default_bounds_def scaling_def np_single np2_single np_div_def
      zero_params_def example_params_def)

lemma zero_initialise: "initialise (zero_params sf) [0] = Inr zero_0"
  by (simp add: zero_params_def zero_0_def constant_objective_def stage_defs)

lemma zero_iteration:
  assumes "x1 st = [0]" and "sigma st = 1 / 5" and "fa st = [0, 0, 0, 0]" and "f_opt st = 0"
  shows "body (zero_params sf) (\<lambda>i. 1) st
         = Inr (st\<lparr>function_count := function_count st + 2,
                   handed := handed st @ [[1 / 5], [- 1 / 5]],
                   x2 := [1 / 5], g2 := [- 1], x3 := [- 1 / 5], g3 := [- 1],
                   quad_update := False, i_min := 0\<rparr>)"
proof -
  define A where "A = st\<lparr>function_count := function_count st + 1,
    handed := handed st @ [[1 / 5]], x2 := [1 / 5], g2 := [- 1]\<rparr>"
  define B where "B = A\<lparr>function_count := function_count st + 2,
    handed := handed st @ [[1 / 5], [- 1 / 5]], x3 := [- 1 / 5], g3 := [- 1]\<rparr>"
  define C where "C = B\<lparr>quad_update := False\<rparr>"
  define D where "D = C\<lparr>i_min := 0\<rparr>"
  have r: "smul (sigma st) (randn (nvars (zero_params sf)) (\<lambda>i. 1)) = [1 / 5]"
    by (simp add: assms zero_params_def example_params_def randn_single smul_single)
  have a: "forward_probe (zero_params sf) [1 / 5] st = Inr A"
    by (simp add: A_def zero_params_def assms constant_objective_def stage_defs)
  have b: "secondary_probe (zero_params sf) [1 / 5] A = Inr B"
    by (simp add: B_def A_def zero_params_def assms constant_objective_def stage_defs)
  have "local_fit [1 / 5] B
      = quad_fit (2000000000000000 / 2000000000000001) (2000000000000000 / 2000000000000001) [0, 0, 0]"
    by (simp add: local_fit_def B_def A_def assms np_single norm2_single)
  with fit_zero obtain qa qb qc where fit: "local_fit [1 / 5] B = Inr (qa, qb, qc)"
    and neg: "\<not> 0 < qa"
    by (auto split: sum.splits)
  have c: "quadratic_probe (zero_params sf) [1 / 5] B = Inr C"
    unfolding C_def using fit neg by (rule quadratic_probe_skipped)
  have d: "choose_best (zero_params sf) C = Inr D"
    by (simp add: D_def C_def B_def A_def zero_params_def assms stage_defs)
  have u: "update_incumbent (zero_params sf) D = Inr D"
    by (simp add: D_def C_def B_def A_def assms update_incumbent_def)
  have "body (zero_params sf) (\<lambda>i. 1) st = Inr D"
    by (rule body_steps[OF r a b c d u])
  then show ?thesis by (simp add: D_def C_def B_def A_def)
qed

lemma zero_body_1: "body (zero_params sf) (\<lambda>i. 1) zero_0 = Inr zero_1"
  by (subst zero_iteration) (simp_all add: zero_0_def zero_1_def)

lemma zero_body_2: "body (zero_params sf) (\<lambda>i. 1) zero_1 = Inr zero_2"
  by (subst zero_iteration) (simp_all add: zero_0_def zero_1_def zero_2_def)

lemma zero_loop:
  "loop (zero_params False) [\<lambda>i. 1, \<lambda>i. 1] zero_0 = Stopped Exhausted zero_2"
proof -
  have t1: "termination_check (zero_params False) zero_1 = Inr None"
    by (simp add: termination_check_def zero_1_def zero_0_def zero_params_def example_params_def
        example_options_def np_max_def)
  have t2: "termination_check (zero_params False) zero_2 = Inr None"
    by (simp add: termination_check_def zero_2_def zero_1_def zero_0_def zero_params_def
        example_params_def example_options_def np_max_def)
  have c0: "function_count zero_0 < max_evals (opts (zero_params False))"
    by (simp add: zero_0_def zero_params_def example_params_def example_options_def)
  have c1: "function_count zero_1 < max_evals (opts (zero_params False))"
    by (simp add: zero_1_def zero_0_def zero_params_def example_params_def example_options_def)
  have c2: "\<not> function_count zero_2 < max_evals (opts (zero_params False))"
    by (simp add: zero_2_def zero_1_def zero_0_def zero_params_def example_params_def
        example_options_def)
  show ?thesis
    by (simp add: c0 c1 c2 zero_body_1 zero_body_2 t1 t2)
qed

lemma zero_returned: "returned (zero_params False) [0] zero_2 = Inr zero_out"
  by (simp add: returned_def x_init_out_def unscale_def np_single np2_single
      zero_params_def example_params_def example_options_def zero_2_def zero_1_def zero_0_def
      zero_out_def finalise_history_def isfinite_def column_def Let_def replicate_explicit)

lemma zero_orsopt:
  "orsopt (plain_evaluator (constant_objective 0)) max_step [0] (Some [- 1]) (Some [1])
     (example_options 5 False) [\<lambda>i. 1, \<lambda>i. 1] = Some zero_out"
  by (simp add: orsopt_def zero_make_params run_def zero_initialise zero_loop zero_returned
      del: loop.simps)

lemma zero_accepts: "accepts (zero_params False) zero_0 zero_2 0"
proof -
  have "accepts (zero_params False) zero_0 zero_1 0"
    by (rule accepts.kept[OF accepts.none zero_body_1]) (simp add: zero_0_def zero_1_def)
  then show ?thesis
    by (rule accepts.kept[OF _ zero_body_2]) (simp add: zero_2_def zero_1_def zero_0_def)
qed

lemma zero_feasible_loop:
  "loop (zero_params True) [\<lambda>i. 1] zero_0 = Stopped Feasible zero_1"
proof -
  have t1: "termination_check (zero_params True) zero_1 = Inr (Some Feasible)"
    by (simp add: termination_check_def zero_1_def zero_0_def zero_params_def example_params_def
        example_options_def np_max_def)
  have c0: "function_count zero_0 < max_evals (opts (zero_params True))"
    by (simp add: zero_0_def zero_params_def example_params_def example_options_def)
  show ?thesis
    by (simp add: c0 zero_body_1 t1)
qed

subsection \<open>A run on the constant -1\<close>

lemma fit_minus:
  "case quad_fit (2000000000000000 / 2000000000000001) (2000000000000000 / 2000000000000001) [- 1, - 1, - 1] of
     Inl e \<Rightarrow> False | Inr (a, b, c) \<Rightarrow> 0 < a"
  by (simp add: quad_fit_def det3_def Let_def power2_eq_square)


lemma minus_make_params:
  "make_params (plain_evaluator (constant_objective (- 1))) max_step [0] (Some [- 1]) (Some [1])
     (example_options 5 False) = Inr (Some minus_params)"
  by (simp add: make_params_def default_bounds_def scaling_def np_single np2_single np_div_def
      minus_params_def example_params_def)

lemma minus_iteration:
  assumes "x1 st = [0]" and "sigma st = 1 / 5" and "fa st = [- 1, u, v, - 1]" and "f_opt st = - 1"
  shows "\<exists>st' u' v'. body minus_params (\<lambda>i. 1) st = Inr st'
           \<and> x1 st' = [0] \<and> sigma st' = 1 / 5 \<and> fa st' = [- 1, u', v', - 1] \<and> f_opt st' = - 1
           \<and> function_count st' = function_count st + 3
           \<and> length (handed st') = length (handed st) + 3
           \<and> iteration st' = iteration st \<and> g_opt st' = g_opt st"
proof -
  define A where "A = st\<lparr>function_count := function_count st + 1,
    handed := handed st @ [[1 / 5]], x2 := [1 / 5], g2 := [- 1], fa := [- 1, - 1, v, - 1]\<rparr>"
  define B where "B = A\<lparr>function_count := function_count st + 2,
    handed := handed st @ [[1 / 5], [- 1 / 5]], x3 := [- 1 / 5], g3 := [- 1],
    fa := [- 1, - 1, - 1, - 1]\<rparr>"
  have r: "smul (sigma st) (randn (nvars minus_params) (\<lambda>i. 1)) = [1 / 5]"
    by (simp add: assms minus_params_def example_params_def randn_single smul_single)
  have a: "forward_probe minus_params [1 / 5] st = Inr A"
    by (simp add: A_def minus_params_def assms constant_objective_def stage_defs)
  have b: "secondary_probe minus_params [1 / 5] A = Inr B"
    by (simp add: B_def A_def minus_params_def assms constant_objective_def stage_defs)
  have "local_fit [1 / 5] B
      = quad_fit (2000000000000000 / 2000000000000001) (2000000000000000 / 2000000000000001)
          [- 1, - 1, - 1]"
    by (simp add: local_fit_def B_def A_def assms np_single norm2_single)
  with fit_minus obtain qa qb qc where fit: "local_fit [1 / 5] B = Inr (qa, qb, qc)"
    and pos: "0 < qa"
    by (auto split: sum.splits)
  obtain y where qp: "quad_point minus_params [1 / 5] B qa qb = Inr [y]"
    by (simp add: quad_point_def B_def A_def assms smul_single np_single)
  have ev: "evaluator minus_params [y]
      = \<lparr>ev_f = Scalar (- 1), ev_g = [- 1], ev_x = clip [y], ev_n = 1\<rparr>"
    by (simp add: minus_params_def example_params_def plain_evaluator_def constant_objective_def)
  define C where "C = B\<lparr>function_count := function_count st + 3,
    handed := handed st @ [[1 / 5], [- 1 / 5], [y]], x4 := clip [y], g4 := [- 1], c4 := True,
    quad_update := True\<rparr>"
  define D where "D = C\<lparr>i_min := 0\<rparr>"
  have c: "quadratic_probe minus_params [1 / 5] B = Inr C"
    unfolding quadratic_probe_evaluated[OF fit pos qp, of "- 1", unfolded ev, simplified]
    by (simp add: C_def B_def A_def)
  have d: "choose_best minus_params C = Inr D"
    by (simp add: D_def C_def B_def A_def minus_params_def assms stage_defs)
  have u: "update_incumbent minus_params D = Inr D"
    by (simp add: D_def C_def B_def A_def assms update_incumbent_def)
  have "body minus_params (\<lambda>i. 1) st = Inr D"
    by (rule body_steps[OF r a b c d u])
  moreover have "x1 D = [0]" "sigma D = 1 / 5" "fa D = [- 1, - 1, - 1, - 1]" "f_opt D = - 1"
    "function_count D = function_count st + 3" "length (handed D) = length (handed st) + 3"
    "iteration D = iteration st" "g_opt D = g_opt st"
    by (simp_all add: D_def C_def B_def A_def assms)
  ultimately show ?thesis by blast
qed

lemma minus_run:
  "\<exists>st. run minus_params [0] [\<lambda>i. 1, \<lambda>i. 1] = Stopped Exhausted st
         \<and> function_count st = 7 \<and> length (handed st) = 7 \<and> iteration st = 1"
proof -
  obtain st0 where i: "initialise minus_params [0] = Inr st0"
    and s0: "x1 st0 = [0]" "sigma st0 = 1 / 5" "fa st0 = [- 1, 0, 0, - 1]" "f_opt st0 = - 1"
      "function_count st0 = 1" "length (handed st0) = 1" "iteration st0 = 1" "g_opt st0 = [- 1]"
    by (simp add: minus_params_def constant_objective_def stage_defs)
  from minus_iteration[OF s0(1-4)] obtain st1 u1 v1 where
    b1: "body minus_params (\<lambda>i. 1) st0 = Inr st1"
    and s1: "x1 st1 = [0]" "sigma st1 = 1 / 5" "fa st1 = [- 1, u1, v1, - 1]" "f_opt st1 = - 1"
      "function_count st1 = function_count st0 + 3" "length (handed st1) = length (handed st0) + 3"
      "iteration st1 = iteration st0" "g_opt st1 = g_opt st0"
    by blast
  from minus_iteration[OF s1(1-4)] obtain st2 u2 v2 where
    b2: "body minus_params (\<lambda>i. 1) st1 = Inr st2"
    and s2: "function_count st2 = function_count st1 + 3" "length (handed st2) = length (handed st1) + 3"
      "iteration st2 = iteration st1" "g_opt st2 = g_opt st1"
    by blast
  have t: "termination_check minus_params st = Inr None" if "g_opt st = [- 1]" "iteration st = 1" for st
    by (simp add: termination_check_def that minus_params_def example_params_def
        example_options_def np_max_def)
  have m: "max_evals (opts minus_params) = 5"
    by (simp add: minus_params_def example_params_def example_options_def)
  have "loop minus_params [\<lambda>i. 1, \<lambda>i. 1] st0 = Stopped Exhausted st2"
    by (simp add: m s0 s1 s2 b1 b2 t)
  then have "run minus_params [0] [\<lambda>i. 1, \<lambda>i. 1] = Stopped Exhausted st2"
    by (simp add: run_def i del: loop.simps)
  then show ?thesis using s0 s1 s2 by simp
qed

subsection \<open>A run with an Evaluator that strays\<close>

lemma fit_stray:
  "case quad_fit 0 0 [0, 0, 0] of Inl e \<Rightarrow> False | Inr (a, b, c) \<Rightarrow> \<not> 0 < a"
  by (simp add: quad_fit_def det3_def Let_def power2_eq_square)

lemma stray_make_params:
  "make_params stray_evaluator max_step [0] (Some [- 1]) (Some [1]) (example_options 2 False)
     = Inr (Some stray_params)"
  by (simp add: make_params_def default_bounds_def scaling_def np_single np2_single np_div_def
      stray_params_def example_params_def)

lemma stray_initialise: "initialise stray_params [0] = Inr stray_0"
  by (simp add: stray_params_def stray_0_def stray_evaluator_def stage_defs)

lemma stray_body: "body stray_params (\<lambda>i. - 1) stray_0 = Inr stray_1"
proof -
  define A where "A = stray_0\<lparr>function_count := 2, handed := [[0], [9 / 5]]\<rparr>"
  define B where "B = A\<lparr>function_count := 3, handed := [[0], [9 / 5], [1]]\<rparr>"
  define C where "C = B\<lparr>quad_update := False\<rparr>"
  define D where "D = C\<lparr>i_min := 0, x1 := [1]\<rparr>"
  have r: "smul (sigma stray_0) (randn (nvars stray_params) (\<lambda>i. - 1)) = [- 1 / 5]"
    by (simp add: stray_0_def stray_params_def example_params_def randn_single smul_single)
  have a: "forward_probe stray_params [- 1 / 5] stray_0 = Inr A"
    by (simp add: A_def stray_params_def stray_0_def stray_evaluator_def stage_defs)
  have b: "secondary_probe stray_params [- 1 / 5] A = Inr B"
    by (simp add: B_def A_def stray_params_def stray_0_def stray_evaluator_def stage_defs)
  have "local_fit [- 1 / 5] B = quad_fit 0 0 [0, 0, 0]"
    by (simp add: local_fit_def B_def A_def stray_0_def np_single norm2_single)
  with fit_stray obtain qa qb qc where fit: "local_fit [- 1 / 5] B = Inr (qa, qb, qc)"
    and neg: "\<not> 0 < qa"
    by (auto split: sum.splits)
  have c: "quadratic_probe stray_params [- 1 / 5] B = Inr C"
    unfolding C_def using fit neg by (rule quadratic_probe_skipped)
  have d: "choose_best stray_params C = Inr D"
    by (simp add: D_def C_def B_def A_def stray_params_def stray_0_def stage_defs)
  have u: "update_incumbent stray_params D = Inr D"
    by (simp add: D_def C_def B_def A_def stray_0_def update_incumbent_def)
  have "body stray_params (\<lambda>i. - 1) stray_0 = Inr D"
    by (rule body_steps[OF r a b c d u])
  then show ?thesis by (simp add: D_def C_def B_def A_def stray_1_def stray_0_def)
qed

lemma stray_run: "run stray_params [0] [\<lambda>i. - 1] = Stopped Exhausted stray_1"
proof -
  have t1: "termination_check stray_params stray_1 = Inr None"
    by (simp add: termination_check_def stray_1_def stray_0_def stray_params_def example_params_def
        example_options_def np_max_def)
  have c0: "function_count stray_0 < max_evals (opts stray_params)"
    by (simp add: stray_0_def stray_params_def example_params_def example_options_def)
  have c1: "\<not> function_count stray_1 < max_evals (opts stray_params)"
    by (simp add: stray_1_def stray_0_def stray_params_def example_params_def example_options_def)
  have "loop stray_params [\<lambda>i. - 1] stray_0 = Stopped Exhausted stray_1"
    by (simp add: c0 c1 stray_body t1)
  then show ?thesis
    by (simp add: run_def stray_initialise del: loop.simps)
qed

subsection \<open>Bounds\<close>

lemma params_one_bound:
  "(x_lb = None) \<noteq> (x_ub = None) \<Longrightarrow>
   make_params A B x_init x_lb x_ub oi = make_params A B x_init None None oi"
  by (cases x_lb; cases x_ub) (simp_all add: default_bounds_def make_params_def)

text \<open>
  C10. If exactly one of \<^verbatim>\<open>x_lb\<close> and \<^verbatim>\<open>x_ub\<close> is passed, both bounds are the defaults
  \<open>- 100 * |x_init|\<close> and \<open>100 * |x_init|\<close> componentwise, and the bound that was passed
  is discarded: the optimizer returns what it returns with no bound passed at all.
\<close>

theorem one_bound_discarded:
  assumes "(x_lb = None) \<noteq> (x_ub = None)"
  shows "default_bounds x_init x_lb x_ub
           = (map (\<lambda>v. - 100 * \<bar>v\<bar>) x_init, map (\<lambda>v. 100 * \<bar>v\<bar>) x_init)
         \<and> orsopt A B x_init x_lb x_ub oi ds = orsopt A B x_init None None oi ds"
proof
  show "default_bounds x_init x_lb x_ub
          = (map (\<lambda>v. - 100 * \<bar>v\<bar>) x_init, map (\<lambda>v. 100 * \<bar>v\<bar>) x_init)"
    using assms by (cases x_lb; cases x_ub) (simp_all add: default_bounds_def)
  show "orsopt A B x_init x_lb x_ub oi ds = orsopt A B x_init None None oi ds"
    unfolding orsopt_def params_one_bound[OF assms] ..
qed

theorem one_bound_discarded_witness:
  "default_bounds [2] (Some [- 1]) None = ([- 200], [200])
   \<and> orsopt (plain_evaluator (constant_objective 0)) max_step [2] (Some [- 1]) None
        (example_options 5 False) [\<lambda>i. 1, \<lambda>i. 1]
     = orsopt (plain_evaluator (constant_objective 0)) max_step [2] None None
        (example_options 5 False) [\<lambda>i. 1, \<lambda>i. 1]"
  using one_bound_discarded[of "Some [- 1]" None "[2]" "plain_evaluator (constant_objective 0)"
      max_step "example_options 5 False" "[\<lambda>i. 1, \<lambda>i. 1]"]
  by simp

end
